theory Spec2Isabelle
  imports Main "HOL-Library.Word" "HOL-Library.Signed_Division"
begin

unbundle bit_operations_syntax

section \<open>Errors\<close>

text \<open>
  Both platform files return Go \<open>error\<close> values. A system call fails with a
  \<open>syscall.Errno\<close>; the package itself has the two sentinel errors \<open>ErrLocked\<close> and
  \<open>ErrTimeout\<close>; a context ends with \<open>context.Canceled\<close> or
  \<open>context.DeadlineExceeded\<close>. The value \<open>nil\<close> is \<open>None\<close>.
\<close>

datatype errno =
    EWOULDBLOCK | EBADF | EINVAL | EINTR | ENOLCK | EACCES | ENOENT | EEXIST | EMFILE
  | ERROR_IO_PENDING | ERROR_INVALID_HANDLE | ERROR_FILE_NOT_FOUND | ERROR_FILE_EXISTS
  | ERROR_LOCK_VIOLATION | ERROR_ACCESS_DENIED

datatype error = Errno errno | ErrLocked | ErrTimeout | Canceled | DeadlineExceeded


section \<open>The blocking-syscall family: kernel model\<close>

text \<open>
  The kernel state that \<open>open\<close>, \<open>flock\<close>, \<open>close\<close> and \<open>fcntl(F_SETFD)\<close> read and
  write. Files are named by their path. The descriptor table is an array of slots, a
  descriptor is an index into it, and \<open>open\<close> hands out the lowest free slot. An
  exclusive \<open>flock\<close> lock on a file belongs to one open file description: one of this
  process (named by its descriptor, the program never duplicates one) or one of some
  other process.
\<close>

datatype open_flag = O_CREAT | O_RDWR | O_WRONLY | O_TRUNC | O_EXCL | O_CLOEXEC

datatype flock_flag = LOCK_EX | LOCK_NB | LOCK_UN

datatype holder = Other | Own int

record regular_file =
  perm :: "32 word"
  content :: "8 word list"

record ofd =
  ofd_path :: string
  ofd_flags :: "open_flag set"
  cloexec :: bool

datatype syscall =
    SysOpen string "int option"
  | SysFlock int "flock_flag set"
  | SysClose int
  | SysCloseOnExec int

record unix_os =
  files :: "string \<rightharpoonup> regular_file"
  fdtab :: "ofd option list"
  flocks :: "string \<rightharpoonup> holder"
  umask :: "32 word"
  open_errno :: "string \<rightharpoonup> errno"
  flock_errno :: "errno option"
  trace :: "syscall list"

definition lookup_fd :: "unix_os \<Rightarrow> int \<Rightarrow> ofd option" where
  "lookup_fd os n =
     (if n < 0 \<or> length (fdtab os) \<le> nat n then None else fdtab os ! nat n)"

fun free_slot :: "'a option list \<Rightarrow> nat" where
  "free_slot [] = 0"
| "free_slot (None # xs) = 0"
| "free_slot (Some x # xs) = Suc (free_slot xs)"

definition install :: "'a option list \<Rightarrow> 'a \<Rightarrow> 'a option list" where
  "install tab x =
     (if free_slot tab < length tab then tab[free_slot tab := Some x] else tab @ [Some x])"

text \<open>
  \<open>open(path, flags, mode)\<close>. A path listed in \<open>open_errno\<close> is refused with that
  error (no permission, missing directory, descriptor limit). A missing file is
  created only under \<open>O_CREAT\<close>, empty, with the mode bits that the umask leaves;
  an existing file is emptied only under \<open>O_TRUNC\<close>. Go's \<open>syscall.Open\<close> passes the
  flags on unchanged, so the descriptor is close-on-exec only under \<open>O_CLOEXEC\<close>.
\<close>

definition sys_open ::
  "string \<Rightarrow> open_flag set \<Rightarrow> 32 word \<Rightarrow> unix_os \<Rightarrow> (errno + int) \<times> unix_os" where
  "sys_open path flags mode os =
     (let fail = (\<lambda>e. (Inl e, os\<lparr>trace := trace os @ [SysOpen path None]\<rparr>)) in
      case open_errno os path of
        Some e \<Rightarrow> fail e
      | None \<Rightarrow>
          (case files os path of
             None \<Rightarrow>
               if O_CREAT \<in> flags then
                 (Inr (int (free_slot (fdtab os))),
                  os\<lparr>files := (files os)(path \<mapsto>
                         \<lparr>perm = mode AND NOT (umask os), content = []\<rparr>),
                     fdtab := install (fdtab os)
                         \<lparr>ofd_path = path, ofd_flags = flags, cloexec = (O_CLOEXEC \<in> flags)\<rparr>,
                     trace := trace os @ [SysOpen path (Some (int (free_slot (fdtab os))))]\<rparr>)
               else fail ENOENT
           | Some f \<Rightarrow>
               if O_CREAT \<in> flags \<and> O_EXCL \<in> flags then fail EEXIST
               else
                 (Inr (int (free_slot (fdtab os))),
                  os\<lparr>files := (if O_TRUNC \<in> flags
                                then (files os)(path \<mapsto> f\<lparr>content := []\<rparr>)
                                else files os),
                     fdtab := install (fdtab os)
                         \<lparr>ofd_path = path, ofd_flags = flags, cloexec = (O_CLOEXEC \<in> flags)\<rparr>,
                     trace := trace os @ [SysOpen path (Some (int (free_slot (fdtab os))))]\<rparr>)))"

text \<open>
  \<open>flock(fd, how)\<close>. The result \<open>None\<close> means that the call does not return in this
  kernel state: a blocking request for a lock that another open file description
  holds. A kernel fault (\<open>flock_errno\<close>, such as \<open>ENOLCK\<close> or \<open>EINTR\<close>) fails a
  locking request.
\<close>

definition sys_flock ::
  "int \<Rightarrow> flock_flag set \<Rightarrow> unix_os \<Rightarrow> (errno option \<times> unix_os) option" where
  "sys_flock n how os =
     (let os1 = os\<lparr>trace := trace os @ [SysFlock n how]\<rparr> in
      case lookup_fd os n of
        None \<Rightarrow> Some (Some EBADF, os1)
      | Some d \<Rightarrow>
          if LOCK_UN \<in> how then
            Some (None,
              if flocks os (ofd_path d) = Some (Own n)
              then os1\<lparr>flocks := (flocks os)(ofd_path d := None)\<rparr> else os1)
          else if LOCK_EX \<in> how then
            (case flock_errno os of
               Some e \<Rightarrow> Some (Some e, os1)
             | None \<Rightarrow>
                 if flocks os (ofd_path d) = None \<or> flocks os (ofd_path d) = Some (Own n)
                 then Some (None, os1\<lparr>flocks := (flocks os)(ofd_path d \<mapsto> Own n)\<rparr>)
                 else if LOCK_NB \<in> how then Some (Some EWOULDBLOCK, os1)
                 else None)
          else Some (Some EINVAL, os1))"

text \<open>
  \<open>close(fd)\<close> frees the slot; the lock of the open file description goes with it.
\<close>

definition sys_close :: "int \<Rightarrow> unix_os \<Rightarrow> errno option \<times> unix_os" where
  "sys_close n os =
     (let os1 = os\<lparr>trace := trace os @ [SysClose n]\<rparr> in
      case lookup_fd os n of
        None \<Rightarrow> (Some EBADF, os1)
      | Some d \<Rightarrow>
          (None,
           os1\<lparr>fdtab := (fdtab os)[nat n := None],
               flocks := (if flocks os (ofd_path d) = Some (Own n)
                          then (flocks os)(ofd_path d := None) else flocks os)\<rparr>))"

text \<open>\<open>syscall.CloseOnExec(fd)\<close> is \<open>fcntl(fd, F_SETFD, FD_CLOEXEC)\<close>; it returns nothing.\<close>

definition sys_CloseOnExec :: "int \<Rightarrow> unix_os \<Rightarrow> unix_os" where
  "sys_CloseOnExec n os =
     (let os1 = os\<lparr>trace := trace os @ [SysCloseOnExec n]\<rparr> in
      case lookup_fd os n of
        None \<Rightarrow> os1
      | Some d \<Rightarrow> os1\<lparr>fdtab := (fdtab os)[nat n := Some (d\<lparr>cloexec := True\<rparr>)]\<rparr>)"


section \<open>The blocking-syscall family: the Lock type\<close>

record Lock =
  filename :: string
  fd :: int

definition New :: "string \<Rightarrow> Lock" where
  "New name = \<lparr>filename = name, fd = - 1\<rparr>"

text \<open>\<open>0600\<close> in octal.\<close>

definition mode_0600 :: "32 word" where
  "mode_0600 = 0x180"

definition unix_open :: "Lock \<Rightarrow> unix_os \<Rightarrow> error option \<times> Lock \<times> unix_os" where
  "unix_open l os =
     (case sys_open (filename l) {O_CREAT, O_RDWR} mode_0600 os of
        (Inl e, os') \<Rightarrow> (Some (Errno e), l, os')
      | (Inr n, os') \<Rightarrow> (None, l\<lparr>fd := n\<rparr>, os'))"

text \<open>
  The calls below return \<open>None\<close> when they do not return: \<open>Lock\<close> blocks in \<open>flock\<close>
  for as long as the lock is held elsewhere.
\<close>

definition unix_Lock :: "Lock \<Rightarrow> unix_os \<Rightarrow> (error option \<times> Lock \<times> unix_os) option" where
  "unix_Lock l os =
     (case unix_open l os of
        (Some e, l1, os1) \<Rightarrow> Some (Some e, l1, os1)
      | (None, l1, os1) \<Rightarrow>
          (case sys_flock (fd l1) {LOCK_EX} os1 of
             None \<Rightarrow> None
           | Some (err, os2) \<Rightarrow> Some (map_option Errno err, l1, os2)))"

definition unix_TryLock :: "Lock \<Rightarrow> unix_os \<Rightarrow> (error option \<times> Lock \<times> unix_os) option" where
  "unix_TryLock l os =
     (case unix_open l os of
        (Some e, l1, os1) \<Rightarrow> Some (Some e, l1, os1)
      | (None, l1, os1) \<Rightarrow>
          (case sys_flock (fd l1) {LOCK_EX, LOCK_NB} os1 of
             None \<Rightarrow> None
           | Some (err, os2) \<Rightarrow>
               (let os3 = (if err \<noteq> None then snd (sys_close (fd l1) os2)
                           else sys_CloseOnExec (fd l1) os2)
                in if err = Some EWOULDBLOCK then Some (Some ErrLocked, l1, os3)
                   else Some (map_option Errno err, l1, os3))))"

definition unix_Unlock :: "Lock \<Rightarrow> unix_os \<Rightarrow> error option \<times> Lock \<times> unix_os" where
  "unix_Unlock l os =
     (if fd l = - 1 then (None, l, os)
      else (case sys_close (fd l) os of (err, os1) \<Rightarrow> (map_option Errno err, l, os1)))"


section \<open>The blocking-syscall family: waiting under a context\<close>

text \<open>
  \<open>LockWithContext\<close> opens the file, starts a worker goroutine and waits in a
  \<open>select\<close>. Caller, worker and the world around them (the context ending, another
  process taking or dropping the lock) are interleaved, so the call is a transition
  system: a configuration holds the shared \<open>Lock\<close>, the kernel, the value of
  \<open>ctx.Err()\<close> (\<open>ctx.Done()\<close> is closed exactly when it is not \<open>nil\<close>), the buffer of
  the channel \<open>result\<close> (capacity 1) and the two program counters. Each action is one
  atomic step; \<open>step\<close> is \<open>None\<close> where the action cannot happen. A Go \<open>select\<close>
  takes any one of its cases that can proceed, so each case is an action of its own:
  \<open>WorkerCleanup\<close> and \<open>WorkerSend\<close> for the worker, \<open>CallerRecv\<close> and \<open>CallerDone\<close>
  for the caller.
\<close>

type_synonym Duration = "64 word"

datatype worker_pc = NoWorker | AtFlock | AtSelect "error option" | Finished

datatype caller_pc = Waiting | Returned "error option"

record conf =
  lck :: Lock
  kern :: unix_os
  ctx_err :: "error option"
  result :: "error option list"
  worker :: worker_pc
  caller :: caller_pc

datatype action =
    CtxFire error
  | EnvRelease
  | EnvAcquire
  | WorkerFlock
  | WorkerCleanup
  | WorkerSend
  | CallerRecv
  | CallerDone

fun step :: "action \<Rightarrow> conf \<Rightarrow> conf option" where
  "step (CtxFire e) c =
     (if ctx_err c = None \<and> (e = Canceled \<or> e = DeadlineExceeded)
      then Some (c\<lparr>ctx_err := Some e\<rparr>) else None)"
| "step EnvRelease c =
     (if flocks (kern c) (filename (lck c)) = Some Other
      then Some (c\<lparr>kern := (kern c)\<lparr>flocks := (flocks (kern c))(filename (lck c) := None)\<rparr>\<rparr>)
      else None)"
| "step EnvAcquire c =
     (if flocks (kern c) (filename (lck c)) = None
      then Some (c\<lparr>kern := (kern c)\<lparr>flocks := (flocks (kern c))(filename (lck c) \<mapsto> Other)\<rparr>\<rparr>)
      else None)"
| "step WorkerFlock c =
     (case worker c of
        AtFlock \<Rightarrow>
          (case sys_flock (fd (lck c)) {LOCK_EX} (kern c) of
             None \<Rightarrow> None
           | Some (err, os1) \<Rightarrow> Some (c\<lparr>kern := os1, worker := AtSelect (map_option Errno err)\<rparr>))
      | _ \<Rightarrow> None)"
| "step WorkerCleanup c =
     (case worker c of
        AtSelect err \<Rightarrow>
          (if ctx_err c \<noteq> None then
             (case sys_flock (fd (lck c)) {LOCK_UN} (kern c) of
                None \<Rightarrow> None
              | Some (e1, os1) \<Rightarrow>
                  Some (c\<lparr>kern := snd (sys_close (fd (lck c)) os1), worker := Finished\<rparr>))
           else None)
      | _ \<Rightarrow> None)"
| "step WorkerSend c =
     (case worker c of
        AtSelect err \<Rightarrow>
          (if length (result c) < 1
           then Some (c\<lparr>result := result c @ [err], worker := Finished\<rparr>) else None)
      | _ \<Rightarrow> None)"
| "step CallerRecv c =
     (case caller c of
        Waiting \<Rightarrow>
          (case result c of
             [] \<Rightarrow> None
           | err # rest \<Rightarrow> Some (c\<lparr>result := rest, caller := Returned err\<rparr>))
      | Returned r \<Rightarrow> None)"
| "step CallerDone c =
     (case caller c of
        Waiting \<Rightarrow>
          (case ctx_err c of
             None \<Rightarrow> None
           | Some e \<Rightarrow> Some (c\<lparr>caller := Returned (Some e)\<rparr>))
      | Returned r \<Rightarrow> None)"

fun run :: "action list \<Rightarrow> conf \<Rightarrow> conf option" where
  "run [] c = Some c"
| "run (a # as) c = (case step a c of None \<Rightarrow> None | Some c1 \<Rightarrow> run as c1)"

text \<open>
  The configuration in which \<open>LockWithContext\<close> stands after \<open>open\<close>: returned
  already when \<open>open\<close> failed, else waiting in its \<open>select\<close> with the worker started.
  \<open>cx\<close> is the value of \<open>ctx.Err()\<close> at the call.
\<close>

definition unix_LockWithContext_start :: "error option \<Rightarrow> Lock \<Rightarrow> unix_os \<Rightarrow> conf" where
  "unix_LockWithContext_start cx l os =
     (case unix_open l os of
        (Some e, l1, os1) \<Rightarrow>
          \<lparr>lck = l1, kern = os1, ctx_err = cx, result = [],
           worker = NoWorker, caller = Returned (Some e)\<rparr>
      | (None, l1, os1) \<Rightarrow>
          \<lparr>lck = l1, kern = os1, ctx_err = cx, result = [],
           worker = AtFlock, caller = Waiting\<rparr>)"

definition unix_LockWithContext ::
  "error option \<Rightarrow> action list \<Rightarrow> Lock \<Rightarrow> unix_os \<Rightarrow> conf option" where
  "unix_LockWithContext cx sched l os = run sched (unix_LockWithContext_start cx l os)"

text \<open>
  \<open>context.WithTimeout(context.Background(), timeout)\<close>: a deadline that has passed
  already (a timeout of zero or less) gives a context that is done from the start;
  otherwise only the deadline can end it before \<open>cancel\<close> is called.
\<close>

definition WithTimeout :: "Duration \<Rightarrow> error option" where
  "WithTimeout timeout = (if timeout \<le>s 0 then Some DeadlineExceeded else None)"

definition cancel :: "error option \<Rightarrow> error option" where
  "cancel cx = (case cx of None \<Rightarrow> Some Canceled | Some e \<Rightarrow> Some e)"

text \<open>
  \<open>LockWithTimeout\<close> under the schedule \<open>sched\<close> of what happens between the call of
  \<open>LockWithContext\<close> and the comparison \<open>ctx.Err() == err\<close>; \<open>None\<close> when the caller
  has not returned by then. The deferred \<open>cancel\<close> ends the context at the return.
\<close>

definition unix_LockWithTimeout ::
  "Duration \<Rightarrow> action list \<Rightarrow> Lock \<Rightarrow> unix_os \<Rightarrow> (error option \<times> conf) option" where
  "unix_LockWithTimeout timeout sched l os =
     (case unix_LockWithContext (WithTimeout timeout) sched l os of
        None \<Rightarrow> None
      | Some c \<Rightarrow>
          (case caller c of
             Waiting \<Rightarrow> None
           | Returned err \<Rightarrow>
               Some (if err \<noteq> None \<and> ctx_err c = err then Some ErrTimeout else err,
                     c\<lparr>ctx_err := cancel (ctx_err c)\<rparr>)))"


section \<open>The asynchronous-event family: kernel model\<close>

text \<open>
  The kernel objects behind \<open>CreateFile\<close>, \<open>CreateEvent\<close>, \<open>LockFileEx\<close>,
  \<open>WaitForSingleObject\<close> and \<open>CloseHandle\<close>. The handle table is an array of slots
  and the handle of slot \<open>i\<close> is \<open>i + 1\<close>: the null handle \<open>0\<close> names no object. The
  exclusive lock on the first byte of a file belongs to one file handle of this process
  or to some other process; \<open>release_after\<close> tells after how many milliseconds the
  other process gives it up (no entry: never). An event remembers the file handle
  whose lock request is pending on it.
\<close>

datatype access_right = GENERIC_READ | GENERIC_WRITE

datatype share_mode = FILE_SHARE_READ | FILE_SHARE_WRITE | FILE_SHARE_DELETE

datatype disposition =
  CREATE_NEW | CREATE_ALWAYS | OPEN_EXISTING | OPEN_ALWAYS | TRUNCATE_EXISTING

datatype file_flag = FILE_FLAG_OVERLAPPED | FILE_ATTRIBUTE_NORMAL

datatype lock_flag = LOCKFILE_EXCLUSIVE_LOCK | LOCKFILE_FAIL_IMMEDIATELY

datatype kobject =
    FileObj string "access_right set" "share_mode set" "file_flag set"
  | EventObj bool bool "nat option"

datatype wholder = Elsewhere | ByHandle nat

record win_os =
  wfiles :: "string \<rightharpoonup> 8 word list"
  handles :: "kobject option list"
  wlocks :: "string \<rightharpoonup> wholder"
  release_after :: "string \<rightharpoonup> nat"
  createfile_errno :: "string \<rightharpoonup> errno"
  createevent_errno :: "errno option"
  lockfile_errno :: "errno option"
  wait_errno :: "errno option"

record Overlapped =
  HEvent :: nat

definition INFINITE :: "32 word" where
  "INFINITE = 0xFFFFFFFF"

definition WAIT_OBJECT_0 :: "32 word" where
  "WAIT_OBJECT_0 = 0"

definition WAIT_TIMEOUT :: "32 word" where
  "WAIT_TIMEOUT = 258"

definition WAIT_FAILED :: "32 word" where
  "WAIT_FAILED = 0xFFFFFFFF"

definition lookup_handle :: "win_os \<Rightarrow> nat \<Rightarrow> kobject option" where
  "lookup_handle os h =
     (if h = 0 \<or> length (handles os) \<le> h - 1 then None else handles os ! (h - 1))"

text \<open>\<open>UTF16PtrFromString\<close> refuses a string with a NUL byte.\<close>

definition UTF16PtrFromString :: "string \<Rightarrow> errno + string" where
  "UTF16PtrFromString s = (if CHR 0x00 \<in> set s then Inl EINVAL else Inr s)"

definition CreateFile ::
  "string \<Rightarrow> access_right set \<Rightarrow> share_mode set \<Rightarrow> disposition \<Rightarrow> file_flag set \<Rightarrow>
   win_os \<Rightarrow> (errno + nat) \<times> win_os" where
  "CreateFile name access share disp flags os =
     (let h = Suc (free_slot (handles os));
          tab = install (handles os) (FileObj name access share flags) in
      case createfile_errno os name of
        Some e \<Rightarrow> (Inl e, os)
      | None \<Rightarrow>
          (case wfiles os name of
             None \<Rightarrow>
               if disp = CREATE_NEW \<or> disp = CREATE_ALWAYS \<or> disp = OPEN_ALWAYS
               then (Inr h, os\<lparr>wfiles := (wfiles os)(name \<mapsto> []), handles := tab\<rparr>)
               else (Inl ERROR_FILE_NOT_FOUND, os)
           | Some bytes \<Rightarrow>
               if disp = CREATE_NEW then (Inl ERROR_FILE_EXISTS, os)
               else if disp = CREATE_ALWAYS \<or> disp = TRUNCATE_EXISTING
               then (Inr h, os\<lparr>wfiles := (wfiles os)(name \<mapsto> []), handles := tab\<rparr>)
               else (Inr h, os\<lparr>handles := tab\<rparr>)))"

definition CreateEvent :: "32 word \<Rightarrow> 32 word \<Rightarrow> win_os \<Rightarrow> (errno + nat) \<times> win_os" where
  "CreateEvent manualReset initialState os =
     (case createevent_errno os of
        Some e \<Rightarrow> (Inl e, os)
      | None \<Rightarrow>
          (Inr (Suc (free_slot (handles os))),
           os\<lparr>handles := install (handles os)
                 (EventObj (manualReset \<noteq> 0) (initialState \<noteq> 0) None)\<rparr>))"

text \<open>
  \<open>CloseHandle\<close> fails on a handle that names no object. Closing a file handle
  gives up the lock it holds.
\<close>

definition CloseHandle :: "nat \<Rightarrow> win_os \<Rightarrow> errno option \<times> win_os" where
  "CloseHandle h os =
     (case lookup_handle os h of
        None \<Rightarrow> (Some ERROR_INVALID_HANDLE, os)
      | Some (EventObj m s p) \<Rightarrow> (None, os\<lparr>handles := (handles os)[h - 1 := None]\<rparr>)
      | Some (FileObj name access share flags) \<Rightarrow>
          (None,
           os\<lparr>handles := (handles os)[h - 1 := None],
              wlocks := (if wlocks os name = Some (ByHandle h)
                         then (wlocks os)(name := None) else wlocks os)\<rparr>))"

text \<open>
  \<open>LockFileEx\<close> on a handle opened for overlapped I/O: the lock is granted at once
  when the byte is free; otherwise the request fails under
  \<open>LOCKFILE_FAIL_IMMEDIATELY\<close> and stays pending on the event of the overlapped
  structure without it.
\<close>

definition LockFileEx ::
  "nat \<Rightarrow> lock_flag set \<Rightarrow> Overlapped \<Rightarrow> win_os \<Rightarrow> errno option \<times> win_os" where
  "LockFileEx h flags ol os =
     (case lookup_handle os h of
        Some (FileObj name access share fl) \<Rightarrow>
          (case lockfile_errno os of
             Some e \<Rightarrow> (Some e, os)
           | None \<Rightarrow>
               if wlocks os name = None
               then (None, os\<lparr>wlocks := (wlocks os)(name \<mapsto> ByHandle h)\<rparr>)
               else if LOCKFILE_FAIL_IMMEDIATELY \<in> flags then (Some ERROR_LOCK_VIOLATION, os)
               else
                 (case lookup_handle os (HEvent ol) of
                    Some (EventObj m s p) \<Rightarrow>
                      (Some ERROR_IO_PENDING,
                       os\<lparr>handles := (handles os)[HEvent ol - 1 := Some (EventObj m s (Some h))]\<rparr>)
                  | _ \<Rightarrow> (Some ERROR_INVALID_HANDLE, os)))
      | _ \<Rightarrow> (Some ERROR_INVALID_HANDLE, os))"

text \<open>
  \<open>WaitForSingleObject\<close> returns the wait status and, for \<open>WAIT_FAILED\<close> only, the
  error. The pending lock request completes when the other holder lets go within the
  bound; \<open>INFINITE\<close> is no bound. The result \<open>None\<close> is a wait that never returns.
\<close>

definition WaitForSingleObject ::
  "nat \<Rightarrow> 32 word \<Rightarrow> win_os \<Rightarrow> ((32 word \<times> errno option) \<times> win_os) option" where
  "WaitForSingleObject ev millis os =
     (case lookup_handle os ev of
        Some (EventObj m s p) \<Rightarrow>
          (case wait_errno os of
             Some e \<Rightarrow> Some ((WAIT_FAILED, Some e), os)
           | None \<Rightarrow>
               if s then Some ((WAIT_OBJECT_0, None), os)
               else
                 (case (case p of None \<Rightarrow> None | Some h \<Rightarrow>
                          (case lookup_handle os h of
                             Some (FileObj name access share fl) \<Rightarrow>
                               (case release_after os name of
                                  None \<Rightarrow> None
                                | Some t \<Rightarrow> Some (h, name, t))
                           | _ \<Rightarrow> None)) of
                    Some (h, name, t) \<Rightarrow>
                      if millis = INFINITE \<or> t < unat millis
                      then Some ((WAIT_OBJECT_0, None),
                             os\<lparr>handles := (handles os)[ev - 1 := Some (EventObj m True None)],
                                wlocks := (wlocks os)(name \<mapsto> ByHandle h),
                                release_after := (release_after os)(name := None)\<rparr>)
                      else Some ((WAIT_TIMEOUT, None),
                             os\<lparr>release_after := (release_after os)(name \<mapsto> t - unat millis)\<rparr>)
                  | None \<Rightarrow>
                      if millis = INFINITE then None
                      else Some ((WAIT_TIMEOUT, None), os)))
      | _ \<Rightarrow> Some ((WAIT_FAILED, Some ERROR_INVALID_HANDLE), os))"


section \<open>The asynchronous-event family: the Lock type\<close>

record WinLock =
  wfilename :: string
  handle :: nat

definition windows_New :: "string \<Rightarrow> WinLock" where
  "windows_New name = \<lparr>wfilename = name, handle = 0\<rparr>"

definition newOverlapped :: "win_os \<Rightarrow> (errno + Overlapped) \<times> win_os" where
  "newOverlapped os =
     (case CreateEvent 1 0 os of
        (Inl e, os1) \<Rightarrow> (Inl e, os1)
      | (Inr event, os1) \<Rightarrow> (Inr \<lparr>HEvent = event\<rparr>, os1))"

text \<open>
  Go's \<open>/\<close> on \<open>int64\<close> truncates towards zero, and the conversion \<open>uint32(x)\<close> keeps
  the low 32 bits.
\<close>

definition int64_div :: "64 word \<Rightarrow> 64 word \<Rightarrow> 64 word" where
  "int64_div a b = word_of_int (sint a sdiv sint b)"

definition millis_of :: "Duration \<Rightarrow> 32 word" where
  "millis_of timeout =
     (if 0 \<le>s timeout then ucast (int64_div timeout 1000000) else INFINITE)"

text \<open>
  The deferred calls of \<open>LockWithTimeout\<close>, last registered first: the event (once
  it exists) is closed, then the file handle when the named result \<open>err\<close> is not
  \<open>nil\<close>.
\<close>

definition deferred :: "nat \<Rightarrow> nat option \<Rightarrow> error option \<Rightarrow> win_os \<Rightarrow> win_os" where
  "deferred h ev err os =
     (let os1 = (case ev of None \<Rightarrow> os | Some e \<Rightarrow> snd (CloseHandle e os))
      in if err \<noteq> None then snd (CloseHandle h os1) else os1)"

definition windows_LockWithTimeout ::
  "Duration \<Rightarrow> WinLock \<Rightarrow> win_os \<Rightarrow> (error option \<times> WinLock \<times> win_os) option" where
  "windows_LockWithTimeout timeout l os =
     (case UTF16PtrFromString (wfilename l) of
        Inl e \<Rightarrow> Some (Some (Errno e), l, os)
      | Inr name \<Rightarrow>
          (case CreateFile name {GENERIC_READ} {FILE_SHARE_READ} OPEN_ALWAYS
                  {FILE_FLAG_OVERLAPPED, FILE_ATTRIBUTE_NORMAL} os of
             (Inl e, os1) \<Rightarrow> Some (Some (Errno e), l, os1)
           | (Inr h, os1) \<Rightarrow>
               (let l1 = l\<lparr>handle := h\<rparr>;
                    millis = millis_of timeout;
                    return = (\<lambda>ev err os'. Some (err, l1, deferred h ev err os'))
                in case newOverlapped os1 of
                     (Inl e, os2) \<Rightarrow> return None (Some (Errno e)) os2
                   | (Inr ol, os2) \<Rightarrow>
                       (case LockFileEx h {LOCKFILE_EXCLUSIVE_LOCK} ol os2 of
                          (err, os3) \<Rightarrow>
                            if err = None then return (Some (HEvent ol)) None os3
                            else if err \<noteq> Some ERROR_IO_PENDING
                            then return (Some (HEvent ol)) (map_option Errno err) os3
                            else
                              (case WaitForSingleObject (HEvent ol) millis os3 of
                                 None \<Rightarrow> None
                               | Some ((s, err'), os4) \<Rightarrow>
                                   if s = WAIT_OBJECT_0 then return (Some (HEvent ol)) None os4
                                   else if s = WAIT_TIMEOUT
                                   then return (Some (HEvent ol)) (Some ErrTimeout) os4
                                   else return (Some (HEvent ol)) (map_option Errno err') os4)))))"

definition windows_TryLock ::
  "WinLock \<Rightarrow> win_os \<Rightarrow> (error option \<times> WinLock \<times> win_os) option" where
  "windows_TryLock l os =
     (case windows_LockWithTimeout 0 l os of
        None \<Rightarrow> None
      | Some (err, l1, os1) \<Rightarrow>
          if err = Some ErrTimeout then Some (Some ErrLocked, l1, os1) else Some (err, l1, os1))"

definition windows_Lock ::
  "WinLock \<Rightarrow> win_os \<Rightarrow> (error option \<times> WinLock \<times> win_os) option" where
  "windows_Lock l os = windows_LockWithTimeout (- 1) l os"

definition windows_Unlock :: "WinLock \<Rightarrow> win_os \<Rightarrow> error option \<times> WinLock \<times> win_os" where
  "windows_Unlock l os =
     (case CloseHandle (handle l) os of (err, os1) \<Rightarrow> (map_option Errno err, l, os1))"


section \<open>Observations and example states\<close>

text \<open>
  What the statements below read off a kernel state or a trace, and three concrete
  kernels: one freshly booted with the three standard descriptors open, one in which
  another process holds the lock on the file \<open>lock\<close>, and one in which this process
  holds it through descriptor 3 (another \<open>Lock\<close> instance on the same file). The
  invariants of the schedules of \<open>LockWithContext\<close> follow: what the worker and
  the channel carry is what \<open>flock\<close> returned.
\<close>

definition tty :: ofd where
  "tty = \<lparr>ofd_path = ''/dev/tty'', ofd_flags = {O_RDWR}, cloexec = False\<rparr>"

definition unix_boot :: unix_os where
  "unix_boot = \<lparr>files = Map.empty, fdtab = [Some tty, Some tty, Some tty], flocks = Map.empty,
     umask = 0x12, open_errno = Map.empty, flock_errno = None, trace = []\<rparr>"

definition unix_held :: unix_os where
  "unix_held = unix_boot\<lparr>files := [''lock'' \<mapsto> \<lparr>perm = 0x180, content = []\<rparr>],
     flocks := [''lock'' \<mapsto> Other]\<rparr>"

definition unix_held_self :: unix_os where
  "unix_held_self = unix_boot\<lparr>files := [''lock'' \<mapsto> \<lparr>perm = 0x180, content = []\<rparr>],
     fdtab := [Some tty, Some tty, Some tty,
               Some \<lparr>ofd_path = ''lock'', ofd_flags = {O_CREAT, O_RDWR}, cloexec = True\<rparr>],
     flocks := [''lock'' \<mapsto> Own 3]\<rparr>"

definition new_ofd :: "Lock \<Rightarrow> ofd" where
  "new_ofd l = \<lparr>ofd_path = filename l, ofd_flags = {O_CREAT, O_RDWR}, cloexec = False\<rparr>"

definition cloexec_calls :: "syscall list \<Rightarrow> syscall list" where
  "cloexec_calls tr = filter (\<lambda>s. case s of SysCloseOnExec n \<Rightarrow> True | _ \<Rightarrow> False) tr"

definition opens :: "syscall list \<Rightarrow> nat" where
  "opens tr = length (filter (\<lambda>s. case s of SysOpen p r \<Rightarrow> True | _ \<Rightarrow> False) tr)"

definition created :: "syscall list \<Rightarrow> nat" where
  "created tr = length (filter (\<lambda>s. case s of SysOpen p (Some n) \<Rightarrow> True | _ \<Rightarrow> False) tr)"



definition inv_held :: "conf \<Rightarrow> bool" where
  "inv_held c \<longleftrightarrow>
     worker c = AtFlock \<and> result c = [] \<and> ctx_err c = Some DeadlineExceeded \<and>
     flock_errno (kern c) = None \<and>
     (\<exists>h. flocks (kern c) (filename (lck c)) = Some h \<and> h \<noteq> Own (fd (lck c))) \<and>
     (\<exists>d. lookup_fd (kern c) (fd (lck c)) = Some d \<and> ofd_path d = filename (lck c))"


text \<open>
  The same for the asynchronous-event family: a kernel with no handle open, one in
  which another process holds the lock, the states that \<open>LockWithTimeout\<close> passes
  through (file opened, event created, lock request pending), and what it means that
  the other holder lets go within a bound and that the kernel refuses nothing.
\<close>

definition win_boot :: win_os where
  "win_boot = \<lparr>wfiles = Map.empty, handles = [], wlocks = Map.empty, release_after = Map.empty,
     createfile_errno = Map.empty, createevent_errno = None, lockfile_errno = None, wait_errno = None\<rparr>"

definition win_held :: win_os where
  "win_held = win_boot\<lparr>wfiles := [''lock'' \<mapsto> []], wlocks := [''lock'' \<mapsto> Elsewhere]\<rparr>"

definition fobj :: "string \<Rightarrow> kobject" where
  "fobj name = FileObj name {GENERIC_READ} {FILE_SHARE_READ} {FILE_FLAG_OVERLAPPED, FILE_ATTRIBUTE_NORMAL}"

definition opened :: "string \<Rightarrow> win_os \<Rightarrow> win_os" where
  "opened name os = os\<lparr>wfiles := (case wfiles os name of None \<Rightarrow> (wfiles os)(name \<mapsto> []) | Some b \<Rightarrow> wfiles os),
      handles := install (handles os) (fobj name)\<rparr>"

definition evented :: "win_os \<Rightarrow> win_os" where
  "evented os = os\<lparr>handles := install (handles os) (EventObj True False None)\<rparr>"

definition hfile :: "win_os \<Rightarrow> nat" where
  "hfile os = Suc (free_slot (handles os))"

definition hevent :: "string \<Rightarrow> win_os \<Rightarrow> nat" where
  "hevent name os = Suc (free_slot (handles (opened name os)))"

definition armed :: "string \<Rightarrow> win_os \<Rightarrow> win_os" where
  "armed name os = evented (opened name os)"

definition pending :: "string \<Rightarrow> win_os \<Rightarrow> win_os" where
  "pending name os = (armed name os)\<lparr>handles := (handles (armed name os))
       [hevent name os - 1 := Some (EventObj True False (Some (hfile os)))]\<rparr>"

definition released_within :: "win_os \<Rightarrow> string \<Rightarrow> 32 word \<Rightarrow> bool" where
  "released_within os name millis =
     (case release_after os name of None \<Rightarrow> False
      | Some t \<Rightarrow> millis = INFINITE \<or> t < unat millis)"


definition faultless :: "win_os \<Rightarrow> string \<Rightarrow> bool" where
  "faultless os name \<longleftrightarrow>
     CHR 0x00 \<notin> set name \<and> createfile_errno os name = None \<and> createevent_errno os = None \<and>
     lockfile_errno os = None \<and> wait_errno os = None"


text \<open>
  The scenario \<open>Lock\<close>, \<open>Unlock\<close>, \<open>Lock\<close> on one instance, and further example
  kernels: the lock file present with contents, the open refused, a \<open>flock\<close> that
  fails for want of kernel memory, and the faults and the late release of the
  asynchronous family.
\<close>

definition unix_Lock_Unlock_Lock ::
  "Lock \<Rightarrow> unix_os \<Rightarrow> (error option list \<times> Lock \<times> unix_os) option" where
  "unix_Lock_Unlock_Lock l os =
     (case unix_Lock l os of
        None \<Rightarrow> None
      | Some (e1, l1, os1) \<Rightarrow>
          (case unix_Unlock l1 os1 of
             (e2, l2, os2) \<Rightarrow>
               (case unix_Lock l2 os2 of
                  None \<Rightarrow> None
                | Some (e3, l3, os3) \<Rightarrow> Some ([e1, e2, e3], l3, os3))))"

definition win_open_fault :: win_os where
  "win_open_fault = win_held\<lparr>createfile_errno := [''lock'' \<mapsto> ERROR_ACCESS_DENIED]\<rparr>"



definition unix_with_file :: unix_os where
  "unix_with_file = unix_boot\<lparr>files := [''lock'' \<mapsto> \<lparr>perm = 0x1A4, content = [1, 2, 3]\<rparr>]\<rparr>"

definition unix_refusing :: unix_os where
  "unix_refusing = unix_with_file\<lparr>open_errno := [''lock'' \<mapsto> EACCES]\<rparr>"


definition win_with_file :: win_os where
  "win_with_file = win_boot\<lparr>wfiles := [''lock'' \<mapsto> [1, 2, 3]]\<rparr>"

definition win_released_late :: win_os where
  "win_released_late = win_held\<lparr>release_after := [''lock'' \<mapsto> 700]\<rparr>"


section \<open>Properties of the blocking-syscall family\<close>

subsection \<open>Descriptor table\<close>

lemma free_slot_le: "free_slot tab \<le> length tab"
  by (induction tab rule: free_slot.induct) auto

lemma install_length: "free_slot tab < length (install tab x)"
  using free_slot_le [of tab] by (auto simp: install_def)

lemma install_nth: "install tab x ! free_slot tab = Some x"
  using free_slot_le [of tab] by (auto simp: install_def nth_append)

subsection \<open>The opener\<close>

lemma unix_open_fail:
  "unix_open l os = (Some e, l1, os1) \<Longrightarrow>
     l1 = l \<and> os1 = os\<lparr>trace := trace os @ [SysOpen (filename l) None]\<rparr> \<and>
     (\<exists>x. e = Errno x \<and> open_errno os (filename l) = Some x)"
  by (auto simp: unix_open_def sys_open_def Let_def split: option.splits if_splits)

lemma unix_open_ok:
  "unix_open l os = (None, l1, os1) \<Longrightarrow>
     open_errno os (filename l) = None \<and>
     l1 = l\<lparr>fd := int (free_slot (fdtab os))\<rparr> \<and>
     os1 = os\<lparr>files := (case files os (filename l) of
                           None \<Rightarrow> (files os)(filename l \<mapsto>
                                      \<lparr>perm = mode_0600 AND NOT (umask os), content = []\<rparr>)
                         | Some f \<Rightarrow> files os),
              fdtab := install (fdtab os) (new_ofd l),
              trace := trace os @ [SysOpen (filename l) (Some (int (free_slot (fdtab os))))]\<rparr>"
  by (auto simp: unix_open_def sys_open_def Let_def new_ofd_def split: option.splits if_splits)

lemma unix_open_total:
  "fst (unix_open l os) = map_option Errno (open_errno os (filename l))"
  by (auto simp: unix_open_def sys_open_def Let_def split: option.splits)

lemma unix_open_lookup:
  "unix_open l os = (None, l1, os1) \<Longrightarrow> lookup_fd os1 (fd l1) = Some (new_ofd l)"
  using install_length [of "fdtab os" "new_ofd l"]
  by (auto dest!: unix_open_ok simp: lookup_fd_def install_nth)

subsection \<open>Opening and closing a descriptor\<close>

lemma free_slot_None: "free_slot tab < length tab \<Longrightarrow> tab ! free_slot tab = None"
  by (induction tab rule: free_slot.induct) auto

lemma install_free_nth:
  "(if i < length ((install tab d)[free_slot tab := None]) then (install tab d)[free_slot tab := None] ! i else None)
    = (if i < length tab then tab ! i else None)"
  using free_slot_le [of tab] free_slot_None [of tab]
  by (auto simp: install_def nth_list_update nth_append)

lemma lookup_fd_closed:
  assumes "fdtab os' = (install (fdtab os) d)[free_slot (fdtab os) := None]"
  shows "lookup_fd os' n = lookup_fd os n"
  using install_free_nth [of "nat n" "fdtab os" d]
  unfolding lookup_fd_def assms by (auto split: if_splits)

lemma lookup_fd_upd [simp]:
  "lookup_fd (os\<lparr>trace := t\<rparr>) n = lookup_fd os n"
  "lookup_fd (os\<lparr>flocks := f\<rparr>) n = lookup_fd os n"
  "lookup_fd (os\<lparr>files := g\<rparr>) n = lookup_fd os n"
  by (simp_all add: lookup_fd_def)

subsection \<open>TryLock\<close>

lemma unix_TryLock_contended:
  assumes "open_errno os (filename l) = None" and "flock_errno os = None"
    and "flocks os (filename l) = Some h" and "h \<noteq> Own (int (free_slot (fdtab os)))"
  shows "\<exists>l1 os1. unix_TryLock l os = Some (Some ErrLocked, l1, os1) \<and>
           fd l1 = int (free_slot (fdtab os)) \<and>
           lookup_fd os1 (fd l1) = None \<and> (\<forall>n. lookup_fd os1 n = lookup_fd os n) \<and>
           flocks os1 = flocks os"
proof -
  obtain l1 os1 where o: "unix_open l os = (None, l1, os1)"
    using unix_open_total [of l os] assms(1) by (cases "unix_open l os") auto
  note ok = unix_open_ok [OF o] and lk = unix_open_lookup [OF o]
  define os2 where "os2 = os1\<lparr>trace := trace os1 @ [SysFlock (fd l1) {LOCK_EX, LOCK_NB}]\<rparr>"
  have fl: "sys_flock (fd l1) {LOCK_EX, LOCK_NB} os1 = Some (Some EWOULDBLOCK, os2)"
    using ok lk assms by (simp add: sys_flock_def new_ofd_def os2_def)
  have lk2: "lookup_fd os2 (fd l1) = Some (new_ofd l)"
    using lk by (simp add: os2_def)
  define os3 where "os3 = snd (sys_close (fd l1) os2)"
  have tl: "unix_TryLock l os = Some (Some ErrLocked, l1, os3)"
    by (simp add: unix_TryLock_def o fl os3_def)
  have tab: "fdtab os3 = (install (fdtab os) (new_ofd l))[free_slot (fdtab os) := None]"
    using ok lk2 by (simp add: os3_def sys_close_def os2_def)
  have same: "lookup_fd os3 n = lookup_fd os n" for n
    using tab by (rule lookup_fd_closed)
  have free: "lookup_fd os (int (free_slot (fdtab os))) = None"
    using free_slot_None [of "fdtab os"] by (simp add: lookup_fd_def)
  have fl3: "flocks os3 = flocks os"
    using ok lk2 assms(3,4) by (simp add: os3_def sys_close_def os2_def new_ofd_def)
  show ?thesis
    using tl same free fl3 ok by simp
qed

lemma unix_TryLock_returns: "\<exists>r. unix_TryLock l os = Some r"
  by (auto simp: unix_TryLock_def sys_flock_def Let_def split: prod.splits option.splits)

lemma unix_TryLock_success:
  assumes "unix_TryLock l os = Some (None, l1, os1)"
  shows "lookup_fd os1 (fd l1) = Some ((new_ofd l)\<lparr>cloexec := True\<rparr>) \<and>
         fd l1 = int (free_slot (fdtab os)) \<and>
         flocks os1 (filename l) = Some (Own (fd l1)) \<and>
         trace os1 = trace os @ [SysOpen (filename l) (Some (fd l1)),
            SysFlock (fd l1) {LOCK_EX, LOCK_NB}, SysCloseOnExec (fd l1)]"
proof -
  obtain e la osa where o: "unix_open l os = (e, la, osa)"
    by (cases "unix_open l os") auto
  have e: "e = None"
    using assms o by (cases e) (auto simp: unix_TryLock_def)
  note ok = unix_open_ok [OF o [unfolded e]] and lk = unix_open_lookup [OF o [unfolded e]]
  obtain err osb where fl: "sys_flock (fd la) {LOCK_EX, LOCK_NB} osa = Some (err, osb)"
    using assms o e by (auto simp: unix_TryLock_def split: option.splits)
  have err: "err = None" and l1: "l1 = la" and os1: "os1 = sys_CloseOnExec (fd la) osb"
    using assms o e fl by (auto simp: unix_TryLock_def Let_def split: if_splits)
  have osb: "osb = osa\<lparr>trace := trace osa @ [SysFlock (fd la) {LOCK_EX, LOCK_NB}],
                      flocks := (flocks osa)(filename l \<mapsto> Own (fd la))\<rparr>"
    using fl err lk by (auto simp: sys_flock_def Let_def new_ofd_def split: option.splits if_splits)
  have lkb: "lookup_fd osb (fd la) = Some (new_ofd l)"
    using lk by (simp add: osb)
  have len: "nat (fd la) < length (fdtab osb)" "0 \<le> fd la"
    using lkb by (auto simp: lookup_fd_def split: if_splits)
  show ?thesis
    using lkb len ok by (simp add: os1 l1 sys_CloseOnExec_def lookup_fd_def osb)
qed

lemma unix_TryLock_failure:
  assumes "unix_TryLock l os = Some (Some e, l1, os1)"
  shows "(\<forall>n. lookup_fd os1 n = lookup_fd os n) \<and> cloexec_calls (trace os1) = cloexec_calls (trace os)"
proof -
  obtain e0 la osa where o: "unix_open l os = (e0, la, osa)"
    by (cases "unix_open l os") auto
  show ?thesis
  proof (cases e0)
    case (Some x)
    then have "os1 = osa"
      using assms o by (simp add: unix_TryLock_def)
    then show ?thesis
      using unix_open_fail [OF o [unfolded Some]] by (simp add: lookup_fd_def cloexec_calls_def)
  next
    case None
    note ok = unix_open_ok [OF o [unfolded None]] and lk = unix_open_lookup [OF o [unfolded None]]
    obtain err osb where fl: "sys_flock (fd la) {LOCK_EX, LOCK_NB} osa = Some (err, osb)"
      using assms o None by (auto simp: unix_TryLock_def split: option.splits)
    have err: "err \<noteq> None" and os1: "os1 = snd (sys_close (fd la) osb)"
      using assms o None fl by (auto simp: unix_TryLock_def Let_def split: if_splits)
    have osb: "osb = osa\<lparr>trace := trace osa @ [SysFlock (fd la) {LOCK_EX, LOCK_NB}]\<rparr>"
      using fl err lk by (auto simp: sys_flock_def Let_def split: option.splits if_splits)
    have lkb: "lookup_fd osb (fd la) = Some (new_ofd l)"
      using lk by (simp add: osb)
    have tab: "fdtab os1 = (install (fdtab os) (new_ofd l))[free_slot (fdtab os) := None]"
      using ok lkb by (simp add: os1 sys_close_def osb)
    have same: "lookup_fd os1 n = lookup_fd os n" for n
      using tab by (rule lookup_fd_closed)
    have "trace os1 = trace os @ [SysOpen (filename l) (Some (fd la)),
            SysFlock (fd la) {LOCK_EX, LOCK_NB}, SysClose (fd la)]"
      using ok lkb by (simp add: os1 sys_close_def osb)
    then show ?thesis
      using same by (simp add: cloexec_calls_def)
  qed
qed

subsection \<open>Lock and Unlock\<close>

lemma unix_Unlock_New: "unix_Unlock (New name) os = (None, New name, os)"
  by (simp add: unix_Unlock_def New_def)

lemma unix_Lock_free:
  assumes "open_errno os (filename l) = None" and "flock_errno os = None"
    and "flocks os (filename l) = None"
  shows "\<exists>l1 os1. unix_Lock l os = Some (None, l1, os1) \<and> filename l1 = filename l \<and>
           fd l1 = int (free_slot (fdtab os)) \<and>
           lookup_fd os1 (fd l1) = Some (new_ofd l) \<and>
           flocks os1 = (flocks os)(filename l \<mapsto> Own (fd l1)) \<and>
           open_errno os1 = open_errno os \<and> flock_errno os1 = flock_errno os"
proof -
  obtain l1 os1 where o: "unix_open l os = (None, l1, os1)"
    using unix_open_total [of l os] assms(1) by (cases "unix_open l os") auto
  note ok = unix_open_ok [OF o] and lk = unix_open_lookup [OF o]
  define os2 where "os2 = os1\<lparr>trace := trace os1 @ [SysFlock (fd l1) {LOCK_EX}],
                              flocks := (flocks os1)(filename l \<mapsto> Own (fd l1))\<rparr>"
  have fl: "sys_flock (fd l1) {LOCK_EX} os1 = Some (None, os2)"
    using ok lk assms by (simp add: sys_flock_def new_ofd_def os2_def)
  have "unix_Lock l os = Some (None, l1, os2)"
    by (simp add: unix_Lock_def o fl)
  moreover have "lookup_fd os2 (fd l1) = Some (new_ofd l)"
    using lk by (simp add: os2_def)
  ultimately show ?thesis
    using ok by (simp add: os2_def)
qed

lemma unix_Unlock_held:
  assumes "lookup_fd os (fd l) = Some d" and "ofd_path d = filename l"
    and "flocks os (filename l) = Some (Own (fd l))"
  shows "\<exists>os1. unix_Unlock l os = (None, l, os1) \<and> flocks os1 (filename l) = None \<and>
           lookup_fd os1 (fd l) = None \<and>
           open_errno os1 = open_errno os \<and> flock_errno os1 = flock_errno os"
proof -
  have nn: "fd l \<noteq> - 1" "0 \<le> fd l" "nat (fd l) < length (fdtab os)"
    using assms(1) by (auto simp: lookup_fd_def split: if_splits)
  then show ?thesis
    using assms by (simp add: unix_Unlock_def sys_close_def lookup_fd_def)
qed

lemma unix_round_trip:
  assumes "open_errno os (filename l) = None" and "flock_errno os = None"
    and "flocks os (filename l) = None"
  shows "\<exists>l1 os1 os2 l3 os3.
           unix_Lock l os = Some (None, l1, os1) \<and>
           unix_Unlock l1 os1 = (None, l1, os2) \<and>
           unix_Lock l1 os2 = Some (None, l3, os3) \<and>
           flocks os3 (filename l) = Some (Own (fd l3))"
proof -
  obtain l1 os1 where a: "unix_Lock l os = Some (None, l1, os1)" "filename l1 = filename l"
      "lookup_fd os1 (fd l1) = Some (new_ofd l)"
      "flocks os1 = (flocks os)(filename l \<mapsto> Own (fd l1))"
      "open_errno os1 = open_errno os" "flock_errno os1 = flock_errno os"
    using unix_Lock_free [OF assms] by blast
  obtain os2 where b: "unix_Unlock l1 os1 = (None, l1, os2)" "flocks os2 (filename l1) = None"
      "open_errno os2 = open_errno os1" "flock_errno os2 = flock_errno os1"
    using unix_Unlock_held [of os1 l1 "new_ofd l"] a by (auto simp: new_ofd_def)
  obtain l3 os3 where c: "unix_Lock l1 os2 = Some (None, l3, os3)"
      "flocks os3 = (flocks os2)(filename l1 \<mapsto> Own (fd l3))"
    using unix_Lock_free [of os2 l1] a b assms by auto
  show ?thesis
    using a b c by auto
qed

subsection \<open>Counting the opens\<close>

lemma unix_open_opens:
  "unix_open l os = (e, l1, os1) \<Longrightarrow> opens (trace os1) = Suc (opens (trace os))
     \<and> created (trace os1) = created (trace os) + (if e = None then 1 else 0)"
  by (cases e) (auto dest: unix_open_ok unix_open_fail simp: opens_def created_def)

lemma sys_flock_opens:
  "sys_flock n how os = Some (e, os1) \<Longrightarrow> opens (trace os1) = opens (trace os) \<and> created (trace os1) = created (trace os)"
  by (auto simp: sys_flock_def Let_def opens_def created_def split: option.splits if_splits)

lemma sys_close_opens:
  "opens (trace (snd (sys_close n os))) = opens (trace os) \<and> created (trace (snd (sys_close n os))) = created (trace os)"
  by (auto simp: sys_close_def Let_def opens_def created_def split: option.splits)

lemma sys_CloseOnExec_opens:
  "opens (trace (sys_CloseOnExec n os)) = opens (trace os) \<and> created (trace (sys_CloseOnExec n os)) = created (trace os)"
  by (auto simp: sys_CloseOnExec_def Let_def opens_def created_def split: option.splits)

lemma unix_Lock_opens:
  assumes "unix_Lock l os = Some (e, l1, os1)"
  shows "opens (trace os1) = Suc (opens (trace os)) \<and> created (trace os1) \<le> Suc (created (trace os))"
proof -
  obtain e0 la osa where o: "unix_open l os = (e0, la, osa)"
    by (cases "unix_open l os") auto
  show ?thesis
  proof (cases e0)
    case (Some x)
    then have "os1 = osa" using assms o by (simp add: unix_Lock_def)
    then show ?thesis using unix_open_opens [OF o] by simp
  next
    case None
    then obtain err where "sys_flock (fd la) {LOCK_EX} osa = Some (err, os1)"
      using assms o by (auto simp: unix_Lock_def split: option.splits)
    then show ?thesis
      using unix_open_opens [OF o] sys_flock_opens by fastforce
  qed
qed

lemma unix_TryLock_opens:
  assumes "unix_TryLock l os = Some (e, l1, os1)"
  shows "opens (trace os1) = Suc (opens (trace os)) \<and> created (trace os1) \<le> Suc (created (trace os))"
proof -
  obtain e0 la osa where o: "unix_open l os = (e0, la, osa)"
    by (cases "unix_open l os") auto
  show ?thesis
  proof (cases e0)
    case (Some x)
    then have "os1 = osa" using assms o by (simp add: unix_TryLock_def)
    then show ?thesis using unix_open_opens [OF o] by simp
  next
    case None
    then obtain err osb where fl: "sys_flock (fd la) {LOCK_EX, LOCK_NB} osa = Some (err, osb)"
      and os1: "os1 = (if err \<noteq> None then snd (sys_close (fd la) osb) else sys_CloseOnExec (fd la) osb)"
      using assms o by (auto simp: unix_TryLock_def Let_def split: option.splits if_splits)
    show ?thesis
      using unix_open_opens [OF o] sys_flock_opens [OF fl] sys_close_opens [of "fd la" osb]
        sys_CloseOnExec_opens [of "fd la" osb] os1 by (simp split: if_splits)
  qed
qed

lemma step_opens:
  "step a c = Some c1 \<Longrightarrow> opens (trace (kern c1)) = opens (trace (kern c)) \<and> created (trace (kern c1)) = created (trace (kern c))"
  by (cases a) (auto simp: sys_close_opens dest!: sys_flock_opens split: if_splits worker_pc.splits caller_pc.splits option.splits list.splits)

lemma run_opens:
  "run as c = Some c1 \<Longrightarrow> opens (trace (kern c1)) = opens (trace (kern c)) \<and> created (trace (kern c1)) = created (trace (kern c))"
  by (induction as arbitrary: c) (auto dest!: step_opens split: option.splits)

lemma unix_LockWithContext_opens:
  assumes "unix_LockWithContext cx as l os = Some c"
  shows "opens (trace (kern c)) = Suc (opens (trace os)) \<and> created (trace (kern c)) \<le> Suc (created (trace os))"
proof -
  obtain e0 la osa where o: "unix_open l os = (e0, la, osa)"
    by (cases "unix_open l os") auto
  have "kern (unix_LockWithContext_start cx l os) = osa"
    using o by (cases e0) (simp_all add: unix_LockWithContext_start_def)
  then show ?thesis
    using run_opens [OF assms [unfolded unix_LockWithContext_def]] unix_open_opens [OF o] by simp
qed

subsection \<open>Schedules of LockWithContext\<close>

lemma step_ctx_keep: "step a c = Some c1 \<Longrightarrow> ctx_err c = Some e \<Longrightarrow> ctx_err c1 = Some e"
  by (cases a) (auto split: if_splits worker_pc.splits caller_pc.splits option.splits list.splits)

lemma run_ctx_keep: "run as c = Some c1 \<Longrightarrow> ctx_err c = Some e \<Longrightarrow> ctx_err c1 = Some e"
  by (induction as arbitrary: c) (auto dest: step_ctx_keep split: option.splits)



lemma step_returned:
  "step a c = Some c1 \<Longrightarrow> caller c = Returned r \<Longrightarrow> caller c1 = Returned r \<and> a \<noteq> CallerDone \<and> a \<noteq> CallerRecv"
  by (cases a) (auto split: if_splits worker_pc.splits caller_pc.splits option.splits list.splits)

lemma run_returned:
  "run as c = Some c1 \<Longrightarrow> caller c = Returned r \<Longrightarrow> caller c1 = Returned r \<and> CallerDone \<notin> set as \<and> CallerRecv \<notin> set as"
  by (induction as arbitrary: c) (auto dest: step_returned split: option.splits)



























subsection \<open>A lock held elsewhere for the whole call\<close>

lemma step_inv_held:
  assumes "inv_held c" and "step a c = Some c1" and "a \<noteq> EnvRelease"
  shows "a = CallerDone \<and> inv_held c1 \<and> caller c1 = Returned (Some DeadlineExceeded)"
  using assms
  by (cases a) (auto simp: inv_held_def sys_flock_def split: if_splits caller_pc.splits)

lemma run_inv_held:
  assumes "inv_held c" and "run as c = Some c1" and "EnvRelease \<notin> set as"
    and "caller c = Waiting" and "caller c1 = Returned r"
  shows "r = Some DeadlineExceeded \<and> ctx_err c1 = Some DeadlineExceeded"
proof (cases as)
  case Nil
  then show ?thesis using assms by simp
next
  case (Cons a bs)
  then obtain c2 where s: "step a c = Some c2" and r: "run bs c2 = Some c1"
    using assms(2) by (auto split: option.splits)
  have "caller c2 = Returned (Some DeadlineExceeded)" "ctx_err c2 = Some DeadlineExceeded"
    using step_inv_held [OF assms(1) s] assms(3) Cons by (auto simp: inv_held_def)
  then show ?thesis
    using run_returned [OF r] run_ctx_keep [OF r] assms(5) by auto
qed

lemma start_inv_held:
  assumes "open_errno os (filename l) = None" and "flock_errno os = None"
    and "flocks os (filename l) = Some h" and "h \<noteq> Own (int (free_slot (fdtab os)))"
  shows "inv_held (unix_LockWithContext_start (WithTimeout 0) l os)
     \<and> caller (unix_LockWithContext_start (WithTimeout 0) l os) = Waiting"
proof -
  obtain l1 os1 where o: "unix_open l os = (None, l1, os1)"
    using unix_open_total [of l os] assms(1) by (cases "unix_open l os") auto
  note ok = unix_open_ok [OF o] and lk = unix_open_lookup [OF o]
  show ?thesis
    using ok lk assms
    by (simp add: unix_LockWithContext_start_def o inv_held_def WithTimeout_def new_ofd_def)
qed

lemma unix_LockWithTimeout_zero_contended:
  assumes "open_errno os (filename l) = None" and "flock_errno os = None"
    and "flocks os (filename l) = Some h" and "h \<noteq> Own (int (free_slot (fdtab os)))"
  shows "(\<forall>sched r c. EnvRelease \<notin> set sched \<longrightarrow>
            unix_LockWithTimeout 0 sched l os = Some (r, c) \<longrightarrow> r = Some ErrTimeout)"
    and "\<exists>c. unix_LockWithTimeout 0 [CallerDone] l os = Some (Some ErrTimeout, c)"
proof -
  let ?c0 = "unix_LockWithContext_start (WithTimeout 0) l os"
  note st = start_inv_held [OF assms]
  show "\<forall>sched r c. EnvRelease \<notin> set sched \<longrightarrow>
            unix_LockWithTimeout 0 sched l os = Some (r, c) \<longrightarrow> r = Some ErrTimeout"
  proof (intro allI impI)
    fix sched r c
    assume nr: "EnvRelease \<notin> set sched" and lt: "unix_LockWithTimeout 0 sched l os = Some (r, c)"
    obtain c1 r0 where run: "run sched ?c0 = Some c1" and ret: "caller c1 = Returned r0"
      and r: "r = (if r0 \<noteq> None \<and> ctx_err c1 = r0 then Some ErrTimeout else r0)"
      using lt by (auto simp: unix_LockWithTimeout_def unix_LockWithContext_def split: option.splits caller_pc.splits)
    from run_inv_held [OF _ run nr _ ret] st show "r = Some ErrTimeout"
      using r by simp
  qed
  show "\<exists>c. unix_LockWithTimeout 0 [CallerDone] l os = Some (Some ErrTimeout, c)"
    using st by (simp add: unix_LockWithTimeout_def unix_LockWithContext_def inv_held_def)
qed


section \<open>Properties of the asynchronous-event family\<close>

subsection \<open>Handle table\<close>

lemma free_slot_neq: "i < length tab \<Longrightarrow> tab ! i = Some y \<Longrightarrow> i \<noteq> free_slot tab"
  using free_slot_None [of tab] by auto

lemma lookup_handle_new:
  "handles os' = install (handles os) x \<Longrightarrow> lookup_handle os' (Suc (free_slot (handles os))) = Some x"
  using install_length [of "handles os" x] by (simp add: lookup_handle_def install_nth)

lemma install_keeps:
  assumes "i < length tab" and "tab ! i = Some y"
  shows "i < length (install tab x) \<and> install tab x ! i = Some y"
proof -
  have "i \<noteq> free_slot tab" using assms by (rule free_slot_neq)
  then show ?thesis using assms by (simp add: install_def nth_append)
qed

lemma lookup_handle_old:
  assumes "handles os' = install (handles os) x" and "lookup_handle os h = Some y"
  shows "lookup_handle os' h = Some y \<and> h \<noteq> Suc (free_slot (handles os))"
proof -
  have h: "h \<noteq> 0" "h - 1 < length (handles os)" "handles os ! (h - 1) = Some y"
    using assms(2) by (auto simp: lookup_handle_def split: if_splits)
  have n: "h - 1 \<noteq> free_slot (handles os)"
    using h(2,3) by (rule free_slot_neq)
  have "h - 1 < length (install (handles os) x) \<and> install (handles os) x ! (h - 1) = Some y"
    using h(2,3) by (rule install_keeps)
  then have "lookup_handle os' h = Some y"
    using h(1) unfolding lookup_handle_def assms(1) by simp
  moreover have "h \<noteq> Suc (free_slot (handles os))"
    using n by auto
  ultimately show ?thesis ..
qed

lemma lookup_handle_upd:
  assumes "handles os' = (handles os)[k - 1 := v]" and "lookup_handle os k = Some y"
  shows "lookup_handle os' h = (if h = k then v else lookup_handle os h)"
proof -
  have k: "k \<noteq> 0" "k - 1 < length (handles os)"
    using assms(2) by (auto simp: lookup_handle_def split: if_splits)
  show ?thesis
  proof (cases "h = k")
    case True
    then show ?thesis using k unfolding lookup_handle_def assms(1) by simp
  next
    case False
    then have "h = 0 \<or> h - 1 \<noteq> k - 1" using k(1) by arith
    then show ?thesis using False unfolding lookup_handle_def assms(1) by auto
  qed
qed

subsection \<open>The stages of LockWithTimeout\<close>

lemma CreateFile_open:
  "CreateFile name {GENERIC_READ} {FILE_SHARE_READ} OPEN_ALWAYS {FILE_FLAG_OVERLAPPED, FILE_ATTRIBUTE_NORMAL} os =
     (case createfile_errno os name of Some e \<Rightarrow> (Inl e, os)
      | None \<Rightarrow> (Inr (Suc (free_slot (handles os))), opened name os))"
  by (simp add: CreateFile_def opened_def fobj_def Let_def split: option.splits)

lemma newOverlapped_eq:
  "newOverlapped os = (case createevent_errno os of Some e \<Rightarrow> (Inl e, os)
     | None \<Rightarrow> (Inr \<lparr>HEvent = Suc (free_slot (handles os))\<rparr>, evented os))"
  by (simp add: newOverlapped_def CreateEvent_def evented_def split: option.splits)

lemma opened_fields [simp]:
  "createfile_errno (opened name os) = createfile_errno os"
  "createevent_errno (opened name os) = createevent_errno os"
  "lockfile_errno (opened name os) = lockfile_errno os"
  "wait_errno (opened name os) = wait_errno os"
  "wlocks (opened name os) = wlocks os"
  "release_after (opened name os) = release_after os"
  "handles (opened name os) = install (handles os) (fobj name)"
  by (simp_all add: opened_def)

lemma evented_fields [simp]:
  "createfile_errno (evented os) = createfile_errno os"
  "createevent_errno (evented os) = createevent_errno os"
  "lockfile_errno (evented os) = lockfile_errno os"
  "wait_errno (evented os) = wait_errno os"
  "wlocks (evented os) = wlocks os"
  "release_after (evented os) = release_after os"
  "wfiles (evented os) = wfiles os"
  "handles (evented os) = install (handles os) (EventObj True False None)"
  by (simp_all add: evented_def)

lemma armed_lookup:
  "lookup_handle (evented (opened name os)) (Suc (free_slot (handles os))) = Some (fobj name)"
  "lookup_handle (evented (opened name os)) (Suc (free_slot (handles (opened name os))))
     = Some (EventObj True False None)"
  "Suc (free_slot (handles os)) \<noteq> Suc (free_slot (handles (opened name os)))"
proof -
  have a: "lookup_handle (opened name os) (Suc (free_slot (handles os))) = Some (fobj name)"
    by (rule lookup_handle_new) simp
  have b: "handles (evented (opened name os)) = install (handles (opened name os)) (EventObj True False None)"
    by simp
  show "lookup_handle (evented (opened name os)) (Suc (free_slot (handles os))) = Some (fobj name)"
    using lookup_handle_old [OF b a] by blast
  show "Suc (free_slot (handles os)) \<noteq> Suc (free_slot (handles (opened name os)))"
    using lookup_handle_old [OF b a] by blast
  show "lookup_handle (evented (opened name os)) (Suc (free_slot (handles (opened name os))))
     = Some (EventObj True False None)"
    using b by (rule lookup_handle_new)
qed

lemma armed_handles:
  "lookup_handle (armed name os) (hfile os) = Some (fobj name)"
  "lookup_handle (armed name os) (hevent name os) = Some (EventObj True False None)"
  "hfile os \<noteq> hevent name os"
  using armed_lookup [where name = name and os = os] by (simp_all add: armed_def hfile_def hevent_def)

lemma armed_fields [simp]:
  "lockfile_errno (armed name os) = lockfile_errno os"
  "wait_errno (armed name os) = wait_errno os"
  "wlocks (armed name os) = wlocks os"
  "release_after (armed name os) = release_after os"
  by (simp_all add: armed_def)

lemma LockFileEx_armed:
  "LockFileEx (hfile os) {LOCKFILE_EXCLUSIVE_LOCK} \<lparr>HEvent = hevent name os\<rparr> (armed name os) =
     (case lockfile_errno os of
        Some e \<Rightarrow> (Some e, armed name os)
      | None \<Rightarrow>
          if wlocks os name = None
          then (None, (armed name os)\<lparr>wlocks := (wlocks os)(name \<mapsto> ByHandle (hfile os))\<rparr>)
          else (Some ERROR_IO_PENDING, pending name os))"
  by (simp add: LockFileEx_def armed_handles fobj_def pending_def split: option.splits)

lemma pending_handles:
  "lookup_handle (pending name os) (hfile os) = Some (fobj name)"
  "lookup_handle (pending name os) (hevent name os) = Some (EventObj True False (Some (hfile os)))"
proof -
  have u: "handles (pending name os) = (handles (armed name os))
       [hevent name os - 1 := Some (EventObj True False (Some (hfile os)))]"
    by (simp add: pending_def)
  show "lookup_handle (pending name os) (hfile os) = Some (fobj name)"
    using lookup_handle_upd [OF u armed_handles(2), of "hfile os"] armed_handles(1,3) by simp
  show "lookup_handle (pending name os) (hevent name os) = Some (EventObj True False (Some (hfile os)))"
    using lookup_handle_upd [OF u armed_handles(2), of "hevent name os"] by simp
qed

lemma pending_fields [simp]:
  "wait_errno (pending name os) = wait_errno os"
  "release_after (pending name os) = release_after os"
  "wlocks (pending name os) = wlocks os"
  by (simp_all add: pending_def)

lemma Wait_pending:
  "map_option fst (WaitForSingleObject (hevent name os) millis (pending name os)) =
     (case wait_errno os of
        Some e \<Rightarrow> Some (WAIT_FAILED, Some e)
      | None \<Rightarrow>
          if released_within os name millis then Some (WAIT_OBJECT_0, None)
          else if millis = INFINITE then None
          else Some (WAIT_TIMEOUT, None))"
  by (simp add: WaitForSingleObject_def pending_handles fobj_def released_within_def split: option.splits)

subsection \<open>The outcome of LockWithTimeout\<close>

lemma windows_LockWithTimeout_stages:
  assumes "CHR 0x00 \<notin> set (wfilename l)" and "createfile_errno os (wfilename l) = None"
    and "createevent_errno os = None"
  shows "windows_LockWithTimeout timeout l os =
     (let name = wfilename l; h = hfile os; ev = hevent name os; l1 = l\<lparr>handle := h\<rparr>;
          return = (\<lambda>err os'. Some (err, l1, deferred h (Some ev) err os'))
      in case LockFileEx h {LOCKFILE_EXCLUSIVE_LOCK} \<lparr>HEvent = ev\<rparr> (armed name os) of
           (err, os3) \<Rightarrow>
             if err = None then return None os3
             else if err \<noteq> Some ERROR_IO_PENDING then return (map_option Errno err) os3
             else
               (case WaitForSingleObject ev (millis_of timeout) os3 of
                  None \<Rightarrow> None
                | Some ((s, err'), os4) \<Rightarrow>
                    if s = WAIT_OBJECT_0 then return None os4
                    else if s = WAIT_TIMEOUT then return (Some ErrTimeout) os4
                    else return (map_option Errno err') os4))"
  using assms
  by (simp add: windows_LockWithTimeout_def UTF16PtrFromString_def CreateFile_open newOverlapped_eq
      Let_def hfile_def hevent_def armed_def split: prod.splits option.splits)

lemma wait_codes [simp]:
  "WAIT_TIMEOUT \<noteq> WAIT_OBJECT_0" "WAIT_FAILED \<noteq> WAIT_OBJECT_0" "WAIT_FAILED \<noteq> WAIT_TIMEOUT"
  "WAIT_OBJECT_0 \<noteq> WAIT_TIMEOUT" "WAIT_OBJECT_0 \<noteq> WAIT_FAILED" "WAIT_TIMEOUT \<noteq> WAIT_FAILED"
  by (simp_all add: WAIT_TIMEOUT_def WAIT_OBJECT_0_def WAIT_FAILED_def)

lemma windows_LockWithTimeout_outcome:
  assumes "faultless os (wfilename l)"
  shows "map_option fst (windows_LockWithTimeout timeout l os) =
     (if wlocks os (wfilename l) = None then Some None
      else if released_within os (wfilename l) (millis_of timeout) then Some None
      else if millis_of timeout = INFINITE then None
      else Some (Some ErrTimeout))"
proof -
  let ?name = "wfilename l"
  have f: "CHR 0x00 \<notin> set ?name" "createfile_errno os ?name = None" "createevent_errno os = None"
    "lockfile_errno os = None" "wait_errno os = None"
    using assms by (simp_all add: faultless_def)
  note st = windows_LockWithTimeout_stages [OF f(1,2,3), of timeout]
  show ?thesis
  proof (cases "wlocks os ?name = None")
    case True
    then show ?thesis
      by (simp add: st LockFileEx_armed f Let_def)
  next
    case False
    have w: "map_option fst (WaitForSingleObject (hevent ?name os) (millis_of timeout) (pending ?name os)) =
        (if released_within os ?name (millis_of timeout) then Some (WAIT_OBJECT_0, None)
         else if millis_of timeout = INFINITE then None else Some (WAIT_TIMEOUT, None))"
      by (simp add: Wait_pending f)
    show ?thesis
    proof (cases "WaitForSingleObject (hevent ?name os) (millis_of timeout) (pending ?name os)")
      case None
      then show ?thesis
        using w False by (simp add: st LockFileEx_armed f Let_def split: if_splits)
    next
      case (Some r)
      obtain s e os4 where r: "r = ((s, e), os4)" by (cases r) auto
      show ?thesis
        using w False Some r by (auto simp: st LockFileEx_armed f Let_def split: if_splits)
    qed
  qed
qed

lemma millis_of_zero: "millis_of 0 = 0"
  by (simp add: millis_of_def int64_div_def)

lemma windows_contended_zero:
  assumes "faultless os (wfilename l)" and "wlocks os (wfilename l) \<noteq> None"
  shows "map_option fst (windows_LockWithTimeout 0 l os) = Some (Some ErrTimeout)"
    and "map_option fst (windows_TryLock l os) = Some (Some ErrLocked)"
proof -
  show a: "map_option fst (windows_LockWithTimeout 0 l os) = Some (Some ErrTimeout)"
    using assms(2)
    by (simp add: windows_LockWithTimeout_outcome [OF assms(1)] millis_of_zero released_within_def
        INFINITE_def split: option.splits)
  then show "map_option fst (windows_TryLock l os) = Some (Some ErrLocked)"
    by (auto simp: windows_TryLock_def)
qed

lemma Wait_INFINITE:
  "WaitForSingleObject ev INFINITE os = Some ((s, e), os') \<Longrightarrow> s \<noteq> WAIT_TIMEOUT"
  by (auto simp: WaitForSingleObject_def split: option.splits kobject.splits if_splits)

lemma ErrTimeout_from_wait:
  assumes "windows_LockWithTimeout timeout l os = Some (Some ErrTimeout, l1, os1)"
  shows "\<exists>ev os3 e os4. WaitForSingleObject ev (millis_of timeout) os3 = Some ((WAIT_TIMEOUT, e), os4)"
  using assms
  by (auto simp: windows_LockWithTimeout_def Let_def
      split: sum.splits prod.splits option.splits if_splits)

lemma millis_of_negative: "timeout <s 0 \<Longrightarrow> millis_of timeout = INFINITE"
  by (simp add: millis_of_def word_sless_alt word_sle_eq)

lemma negative_never_times_out:
  assumes "timeout <s 0"
  shows "map_option fst (windows_LockWithTimeout timeout l os) \<noteq> Some (Some ErrTimeout)"
proof
  assume "map_option fst (windows_LockWithTimeout timeout l os) = Some (Some ErrTimeout)"
  then obtain l1 os1 where "windows_LockWithTimeout timeout l os = Some (Some ErrTimeout, l1, os1)"
    by auto
  from ErrTimeout_from_wait [OF this] show False
    unfolding millis_of_negative [OF assms] by (blast dest: Wait_INFINITE)
qed



lemma windows_open_fault:
  "CHR 0x00 \<notin> set (wfilename l) \<Longrightarrow> createfile_errno os (wfilename l) = Some e \<Longrightarrow>
     windows_LockWithTimeout timeout l os = Some (Some (Errno e), l, os)"
  by (simp add: windows_LockWithTimeout_def UTF16PtrFromString_def CreateFile_open)

subsection \<open>What the later calls leave alone\<close>

lemma CloseHandle_wfiles: "wfiles (snd (CloseHandle h os)) = wfiles os"
  by (simp add: CloseHandle_def split: option.splits kobject.splits)

lemma Wait_wfiles: "WaitForSingleObject ev millis os = Some (r, os') \<Longrightarrow> wfiles os' = wfiles os"
  by (auto simp: WaitForSingleObject_def split: option.splits kobject.splits if_splits)

lemma CloseHandle_frame:
  assumes "k \<noteq> h"
  shows "lookup_handle (snd (CloseHandle h os)) k = lookup_handle os k"
    and "wfiles (snd (CloseHandle h os)) = wfiles os"
proof -
  show "wfiles (snd (CloseHandle h os)) = wfiles os"
    by (simp add: CloseHandle_def split: option.splits kobject.splits)
  show "lookup_handle (snd (CloseHandle h os)) k = lookup_handle os k"
  proof (cases "lookup_handle os h")
    case None
    then show ?thesis by (simp add: CloseHandle_def)
  next
    case (Some obj)
    have "handles (snd (CloseHandle h os)) = (handles os)[h - 1 := None]"
      using Some by (simp add: CloseHandle_def split: kobject.splits)
    from lookup_handle_upd [OF this Some, of k] show ?thesis
      using assms by simp
  qed
qed

lemma lookup_handle_other:
  assumes "lookup_handle os ev = Some obj" and "k \<noteq> ev" and "handles os' = (handles os)[ev - 1 := v]"
  shows "lookup_handle os' k = lookup_handle os k"
  using lookup_handle_upd [OF assms(3,1), of k] assms(2) by simp

lemma Wait_frame:
  assumes "WaitForSingleObject ev millis os = Some (r, os')" and "k \<noteq> ev"
  shows "lookup_handle os' k = lookup_handle os k" and "wfiles os' = wfiles os"
proof -
  show "wfiles os' = wfiles os"
    using assms(1)
    by (auto simp: WaitForSingleObject_def split: option.splits kobject.splits if_splits)
  show "lookup_handle os' k = lookup_handle os k"
  proof (cases "lookup_handle os ev")
    case None
    then show ?thesis using assms(1) by (auto simp: WaitForSingleObject_def)
  next
    case (Some obj)
    show ?thesis
    proof (cases obj)
      case (FileObj n a sh fl)
      then show ?thesis using assms(1) Some by (auto simp: WaitForSingleObject_def)
    next
      case (EventObj m s p)
      then have "handles os' = handles os \<or> handles os' = (handles os)[ev - 1 := Some (EventObj m True None)]"
        using assms(1) Some
        by (auto simp: WaitForSingleObject_def split: option.splits kobject.splits if_splits)
      then show ?thesis
      proof
        assume "handles os' = handles os"
        then show ?thesis by (simp add: lookup_handle_def)
      next
        assume "handles os' = (handles os)[ev - 1 := Some (EventObj m True None)]"
        with Some assms(2) show ?thesis by (rule lookup_handle_other)
      qed
    qed
  qed
qed

lemma deferred_wfiles: "wfiles (deferred h ev err os) = wfiles os"
  by (cases ev) (simp_all add: deferred_def Let_def CloseHandle_wfiles)

lemma LockFileEx_wfiles: "LockFileEx h fl ol os = (e, os') \<Longrightarrow> wfiles os' = wfiles os"
  by (auto simp: LockFileEx_def split: option.splits kobject.splits if_splits)

lemma opened_wfiles:
  "wfiles (opened name os) = (case wfiles os name of None \<Rightarrow> (wfiles os)(name \<mapsto> []) | Some b \<Rightarrow> wfiles os)"
  by (simp add: opened_def)

lemma windows_files_stage:
  assumes "windows_LockWithTimeout timeout l os = Some (r, l1, os1)"
  shows "wfiles os1 = wfiles os \<or> wfiles os1 = wfiles (opened (wfilename l) os)"
proof -
  let ?name = "wfilename l"
  consider (nul) "CHR 0x00 \<in> set ?name"
    | (cf) e where "CHR 0x00 \<notin> set ?name" "createfile_errno os ?name = Some e"
    | (ce) e where "CHR 0x00 \<notin> set ?name" "createfile_errno os ?name = None" "createevent_errno os = Some e"
    | (ok) "CHR 0x00 \<notin> set ?name" "createfile_errno os ?name = None" "createevent_errno os = None"
    by (cases "createfile_errno os ?name"; cases "createevent_errno os") auto
  then show ?thesis
  proof cases
    case nul
    then show ?thesis using assms by (simp add: windows_LockWithTimeout_def UTF16PtrFromString_def)
  next
    case cf
    then show ?thesis using assms by (simp add: windows_open_fault)
  next
    case ce
    then show ?thesis using assms
      by (auto simp: windows_LockWithTimeout_def UTF16PtrFromString_def CreateFile_open newOverlapped_eq
          Let_def deferred_wfiles)
  next
    case ok
    obtain err os3 where lf: "LockFileEx (hfile os) {LOCKFILE_EXCLUSIVE_LOCK} \<lparr>HEvent = hevent ?name os\<rparr>
        (armed ?name os) = (err, os3)"
      by (cases "LockFileEx (hfile os) {LOCKFILE_EXCLUSIVE_LOCK} \<lparr>HEvent = hevent ?name os\<rparr> (armed ?name os)") auto
    have w3: "wfiles os3 = wfiles (opened ?name os)"
      using LockFileEx_wfiles [OF lf] by (simp add: armed_def)
    show ?thesis
    proof (cases "err = Some ERROR_IO_PENDING")
      case False
      then show ?thesis
        using assms w3
        by (auto simp: windows_LockWithTimeout_stages [OF ok] lf Let_def deferred_wfiles
            split: if_splits)
    next
      case True
      then obtain x os4 where
        w: "WaitForSingleObject (hevent ?name os) (millis_of timeout) os3 = Some (x, os4)"
        and o: "os1 = deferred (hfile os) (Some (hevent ?name os)) r os4"
        using assms
        by (auto simp: windows_LockWithTimeout_stages [OF ok] lf Let_def
            split: option.splits if_splits)
      show ?thesis
        using Wait_wfiles [OF w] w3 by (simp add: o deferred_wfiles)
    qed
  qed
qed

lemma lookup_handle_wlocks [simp]: "lookup_handle (os\<lparr>wlocks := w\<rparr>) k = lookup_handle os k"
  by (simp add: lookup_handle_def)

lemma LockFileEx_armed_lookup:
  assumes "LockFileEx (hfile os) {LOCKFILE_EXCLUSIVE_LOCK} \<lparr>HEvent = hevent name os\<rparr> (armed name os) = (err, os3)"
  shows "lookup_handle os3 (hfile os) = Some (fobj name)"
  using assms armed_handles(1) [of name os] pending_handles(1) [of name os]
  by (auto simp: LockFileEx_armed split: option.splits if_splits)

lemma deferred_success:
  "h \<noteq> ev \<Longrightarrow> lookup_handle (deferred h (Some ev) None os) h = lookup_handle os h"
  by (simp add: deferred_def CloseHandle_frame(1))

lemma windows_handle_on_success:
  assumes "windows_LockWithTimeout timeout l os = Some (None, l1, os1)"
  shows "handle l1 = hfile os \<and> lookup_handle os1 (handle l1) = Some (fobj (wfilename l))"
proof -
  let ?name = "wfilename l"
  have ok: "CHR 0x00 \<notin> set ?name" "createfile_errno os ?name = None" "createevent_errno os = None"
    using assms
    by (auto simp: windows_LockWithTimeout_def UTF16PtrFromString_def CreateFile_open newOverlapped_eq
          Let_def split: option.splits if_splits)
  obtain err os3 where lf: "LockFileEx (hfile os) {LOCKFILE_EXCLUSIVE_LOCK} \<lparr>HEvent = hevent ?name os\<rparr>
        (armed ?name os) = (err, os3)"
    by (cases "LockFileEx (hfile os) {LOCKFILE_EXCLUSIVE_LOCK} \<lparr>HEvent = hevent ?name os\<rparr> (armed ?name os)") auto
  note l3 = LockFileEx_armed_lookup [OF lf] and ne = armed_handles(3) [of os ?name]
  show ?thesis
  proof (cases "err = Some ERROR_IO_PENDING")
    case False
    then have "l1 = l\<lparr>handle := hfile os\<rparr>"
      "os1 = deferred (hfile os) (Some (hevent ?name os)) None os3"
      using assms
      by (auto simp: windows_LockWithTimeout_stages [OF ok] lf Let_def split: if_splits)
    then show ?thesis
      using l3 ne by (simp add: deferred_success)
  next
    case True
    then obtain x os4 where
      w: "WaitForSingleObject (hevent ?name os) (millis_of timeout) os3 = Some (x, os4)"
      and o: "os1 = deferred (hfile os) (Some (hevent ?name os)) None os4"
      and l1: "l1 = l\<lparr>handle := hfile os\<rparr>"
      using assms
      by (auto simp: windows_LockWithTimeout_stages [OF ok] lf Let_def
          split: option.splits if_splits)
    have "lookup_handle os4 (hfile os) = Some (fobj ?name)"
      using Wait_frame(1) [OF w ne] l3 by simp
    then show ?thesis
      using ne by (simp add: o l1 deferred_success)
  qed
qed

subsection \<open>The millisecond count\<close>

lemma sdiv_nonneg: "0 \<le> k \<Longrightarrow> k sdiv (1000000::int) = k div 1000000"
  by (simp add: signed_divide_int_def sgn_if)

lemma uint_millis:
  assumes "0 \<le>s timeout"
  shows "uint (millis_of timeout) = (sint timeout div 1000000) mod 2 ^ 32"
proof -
  have nn: "0 \<le> sint timeout"
    using assms by (simp add: word_sle_eq)
  have "millis_of timeout = ucast (word_of_int (sint timeout div 1000000) :: 64 word)"
    using assms nn by (simp add: millis_of_def int64_div_def sdiv_nonneg)
  also have "uint \<dots> = take_bit 32 (take_bit 64 (sint timeout div 1000000))"
    by (simp add: unsigned_ucast_eq uint_word_of_int_eq)
  also have "\<dots> = take_bit 32 (sint timeout div 1000000)"
    by (simp only: take_bit_take_bit min_def) simp
  also have "\<dots> = (sint timeout div 1000000) mod 2 ^ 32"
    by (simp only: take_bit_eq_mod)
  finally show ?thesis .
qed

lemma millis_small:
  assumes "0 \<le>s timeout" and "sint timeout < 4294967296000000"
  shows "uint (millis_of timeout) = sint timeout div 1000000"
proof -
  have "0 \<le> sint timeout" using assms by (simp add: word_sle_eq)
  then have "0 \<le> sint timeout div 1000000" "sint timeout div 1000000 < 2 ^ 32"
    using assms(2) by simp_all
  then show ?thesis
    by (simp add: uint_millis [OF assms(1)])
qed

lemma millis_wrap:
  assumes "4294967296000000 \<le> sint timeout"
  shows "uint (millis_of timeout) < sint timeout div 1000000"
proof -
  have nn: "0 \<le>s timeout" using assms by (simp add: word_sle_eq)
  have "uint (millis_of timeout) < 2 ^ 32"
    by (simp add: uint_millis [OF nn])
  moreover have "2 ^ 32 \<le> sint timeout div 1000000"
    using assms by simp
  ultimately show ?thesis by linarith
qed




section \<open>Further properties\<close>

lemmas unix_eval = unix_LockWithContext_def unix_LockWithContext_start_def unix_LockWithTimeout_def
  unix_open_def sys_open_def New_def unix_held_def unix_boot_def tty_def mode_0600_def
  sys_flock_def sys_close_def sys_CloseOnExec_def lookup_fd_def install_def Let_def
  unix_TryLock_def unix_Lock_def unix_Unlock_def WithTimeout_def cancel_def

lemmas win_eval = windows_LockWithTimeout_def windows_TryLock_def windows_New_def win_held_def win_boot_def
  UTF16PtrFromString_def CreateFile_def install_def newOverlapped_def CreateEvent_def LockFileEx_def
  lookup_handle_def WaitForSingleObject_def millis_of_def int64_div_def INFINITE_def WAIT_TIMEOUT_def
  WAIT_OBJECT_0_def WAIT_FAILED_def deferred_def CloseHandle_def Let_def windows_Unlock_def windows_Lock_def

lemma unix_TryLock_failure_trace:
  assumes "unix_TryLock l os = Some (Some e, l1, os1)" and "open_errno os (filename l) = None"
  shows "fd l1 = int (free_slot (fdtab os)) \<and>
         trace os1 = trace os @ [SysOpen (filename l) (Some (fd l1)),
            SysFlock (fd l1) {LOCK_EX, LOCK_NB}, SysClose (fd l1)]"
proof -
  obtain la osa where o: "unix_open l os = (None, la, osa)"
    using unix_open_total [of l os] assms(2) by (cases "unix_open l os") auto
  note ok = unix_open_ok [OF o] and lk = unix_open_lookup [OF o]
  obtain err osb where fl: "sys_flock (fd la) {LOCK_EX, LOCK_NB} osa = Some (err, osb)"
    using assms(1) o by (auto simp: unix_TryLock_def split: option.splits)
  have err: "err \<noteq> None" and os1: "os1 = snd (sys_close (fd la) osb)" and l1: "l1 = la"
    using assms(1) o fl by (auto simp: unix_TryLock_def Let_def split: if_splits)
  have osb: "osb = osa\<lparr>trace := trace osa @ [SysFlock (fd la) {LOCK_EX, LOCK_NB}]\<rparr>"
    using fl err lk by (auto simp: sys_flock_def Let_def split: option.splits if_splits)
  have lkb: "lookup_fd osb (fd la) = Some (new_ofd l)"
    using lk by (simp add: osb)
  show ?thesis
    using ok lkb by (simp add: os1 l1 sys_close_def osb)
qed

lemma mode_owner_only: "(mode_0600 AND NOT u) AND 0x3F = (0::32 word)"
proof -
  have "(mode_0600 AND NOT u) AND 0x3F = (mode_0600 AND 0x3F) AND NOT u"
    by (simp add: and.commute and.left_commute and.assoc)
  also have "mode_0600 AND 0x3F = (0 :: 32 word)"
    by (simp add: mode_0600_def)
  finally show ?thesis by simp
qed

lemma mode_umask: "u AND mode_0600 = 0 \<Longrightarrow> mode_0600 AND NOT u = (mode_0600 :: 32 word)"
  by (metis (no_types, lifting) and.commute and_zero_eq bit.conj_xor_distrib
    bit.xor_compl_left diff_0_right disjunctive_diff_eq_and_not
    xor.left_neutral)

lemma unix_Lock_created:
  assumes "unix_Lock l os = Some (None, l1, os1)"
  shows "created (trace os1) = Suc (created (trace os))"
proof -
  obtain e0 la osa where o: "unix_open l os = (e0, la, osa)"
    by (cases "unix_open l os") auto
  have e0: "e0 = None"
    using assms o by (cases e0) (auto simp: unix_Lock_def)
  obtain err where "sys_flock (fd la) {LOCK_EX} osa = Some (err, os1)"
    using assms o e0 by (auto simp: unix_Lock_def split: option.splits)
  then show ?thesis
    using unix_open_opens [OF o] sys_flock_opens e0 by fastforce
qed

lemma unix_TryLock_created:
  assumes "unix_TryLock l os = Some (None, l1, os1)"
  shows "created (trace os1) = Suc (created (trace os))"
  using unix_TryLock_success [OF assms] by (simp add: created_def)

lemma unix_Unlock_opens:
  "opens (trace (snd (snd (unix_Unlock l os)))) = opens (trace os) \<and>
   created (trace (snd (snd (unix_Unlock l os)))) = created (trace os)"
  using sys_close_opens [of "fd l" os]
  by (auto simp: unix_Unlock_def split: prod.splits)

lemma unix_LockWithTimeout_opens:
  assumes "unix_LockWithTimeout timeout sched l os = Some (r, c)"
  shows "opens (trace (kern c)) = Suc (opens (trace os)) \<and>
         created (trace (kern c)) \<le> Suc (created (trace os))"
proof -
  obtain c1 where c1: "unix_LockWithContext (WithTimeout timeout) sched l os = Some c1"
    and c: "kern c = kern c1"
    using assms by (auto simp: unix_LockWithTimeout_def split: option.splits caller_pc.splits)
  show ?thesis
    using unix_LockWithContext_opens [OF c1] c by simp
qed

lemma windows_files_opened:
  assumes "windows_LockWithTimeout timeout l os = Some (r, l1, os1)"
    and "CHR 0x00 \<notin> set (wfilename l)" and "createfile_errno os (wfilename l) = None"
  shows "wfiles os1 = wfiles (opened (wfilename l) os)"
proof (cases "createevent_errno os")
  case (Some e)
  then show ?thesis
    using assms
    by (auto simp: windows_LockWithTimeout_def UTF16PtrFromString_def CreateFile_open newOverlapped_eq
          Let_def deferred_wfiles)
next
  case None
  let ?name = "wfilename l"
  note ok = assms(2,3) None
  obtain err os3 where lf: "LockFileEx (hfile os) {LOCKFILE_EXCLUSIVE_LOCK} \<lparr>HEvent = hevent ?name os\<rparr>
        (armed ?name os) = (err, os3)"
    by (cases "LockFileEx (hfile os) {LOCKFILE_EXCLUSIVE_LOCK} \<lparr>HEvent = hevent ?name os\<rparr> (armed ?name os)") auto
  have w3: "wfiles os3 = wfiles (opened ?name os)"
    using LockFileEx_wfiles [OF lf] by (simp add: armed_def)
  show ?thesis
  proof (cases "err = Some ERROR_IO_PENDING")
    case False
    then show ?thesis
      using assms(1) w3
      by (auto simp: windows_LockWithTimeout_stages [OF ok] lf Let_def deferred_wfiles
          split: if_splits)
  next
    case True
    then obtain x os4 where
      w: "WaitForSingleObject (hevent ?name os) (millis_of timeout) os3 = Some (x, os4)"
      and o: "os1 = deferred (hfile os) (Some (hevent ?name os)) r os4"
      using assms(1)
      by (auto simp: windows_LockWithTimeout_stages [OF ok] lf Let_def
          split: option.splits if_splits)
    show ?thesis
      using Wait_wfiles [OF w] w3 by (simp add: o deferred_wfiles)
  qed
qed

lemma windows_files_kept:
  assumes "windows_LockWithTimeout timeout l os = Some (r, l1, os1)" and "wfiles os p = Some b"
  shows "wfiles os1 p = Some b"
  using windows_files_stage [OF assms(1)] assms(2)
  by (auto simp: opened_wfiles split: option.splits)

lemma windows_success_open:
  assumes "windows_LockWithTimeout timeout l os = Some (None, l1, os1)"
  shows "CHR 0x00 \<notin> set (wfilename l) \<and> createfile_errno os (wfilename l) = None"
  using assms
  by (auto simp: windows_LockWithTimeout_def UTF16PtrFromString_def CreateFile_open
        split: option.splits if_splits)

lemma windows_success_file:
  assumes "windows_LockWithTimeout timeout l os = Some (None, l1, os1)"
  shows "wfiles os1 (wfilename l) = Some (case wfiles os (wfilename l) of None \<Rightarrow> [] | Some b \<Rightarrow> b)"
  using windows_files_opened [OF assms] windows_success_open [OF assms]
  by (auto simp: opened_wfiles split: option.splits)

lemma cleanup_releases:
  "\<exists>c. unix_LockWithContext None
          [CtxFire Canceled, CallerDone, EnvRelease, WorkerFlock, WorkerCleanup] (New ''lock'') unix_held = Some c \<and>
        caller c = Returned (Some Canceled) \<and> worker c = Finished \<and>
        flocks (kern c) ''lock'' = None \<and> lookup_fd (kern c) (fd (lck c)) = None"
  by (simp add: unix_eval)

lemma send_always_possible:
  "worker c = AtSelect err \<Longrightarrow> result c = [] \<Longrightarrow> step WorkerSend c \<noteq> None"
  by simp


subsection \<open>The round trip on the asynchronous-event family\<close>

lemma CloseHandle_event:
  assumes "lookup_handle os ev = Some (EventObj m s p)"
  shows "CloseHandle ev os = (None, os\<lparr>handles := (handles os)[ev - 1 := None]\<rparr>)"
  using assms by (simp add: CloseHandle_def)

lemma faultless_handles [simp]:
  "faultless (os\<lparr>handles := hs\<rparr>) name = faultless os name"
  "faultless (os\<lparr>wlocks := w\<rparr>) name = faultless os name"
  by (simp_all add: faultless_def)

lemma faultless_armed [simp]: "faultless (armed name os) name' = faultless os name'"
  by (simp add: faultless_def armed_def)

lemma windows_Lock_free:
  assumes "faultless os (wfilename l)" and "wlocks os (wfilename l) = None"
  shows "\<exists>l1 os1. windows_LockWithTimeout timeout l os = Some (None, l1, os1) \<and>
           wfilename l1 = wfilename l \<and>
           lookup_handle os1 (handle l1) = Some (fobj (wfilename l)) \<and>
           wlocks os1 (wfilename l) = Some (ByHandle (handle l1)) \<and>
           faultless os1 (wfilename l)"
proof -
  let ?name = "wfilename l"
  have f: "CHR 0x00 \<notin> set ?name" "createfile_errno os ?name = None" "createevent_errno os = None"
    "lockfile_errno os = None"
    using assms(1) by (simp_all add: faultless_def)
  define os3 where "os3 = (armed ?name os)\<lparr>wlocks := (wlocks os)(?name \<mapsto> ByHandle (hfile os))\<rparr>"
  define os1 where "os1 = os3\<lparr>handles := (handles os3)[hevent ?name os - 1 := None]\<rparr>"
  have ev: "lookup_handle os3 (hevent ?name os) = Some (EventObj True False None)"
    by (simp add: os3_def armed_handles)
  have d: "deferred (hfile os) (Some (hevent ?name os)) None os3 = os1"
    by (simp add: deferred_def CloseHandle_event [OF ev] os1_def)
  have r: "windows_LockWithTimeout timeout l os = Some (None, l\<lparr>handle := hfile os\<rparr>, os1)"
    using assms(2) f(4) d
    by (simp add: windows_LockWithTimeout_stages [OF f(1,2,3)] LockFileEx_armed Let_def os3_def)
  have "lookup_handle os1 (hfile os) = Some (fobj ?name)"
    using windows_handle_on_success [OF r] by simp
  moreover have "wlocks os1 ?name = Some (ByHandle (hfile os))"
    by (simp add: os1_def os3_def)
  moreover have "faultless os1 ?name"
    using assms(1) by (simp add: os1_def os3_def)
  ultimately show ?thesis
    using r by simp
qed

lemma windows_Unlock_held:
  assumes "lookup_handle os (handle l) = Some (fobj (wfilename l))"
    and "wlocks os (wfilename l) = Some (ByHandle (handle l))" and "faultless os (wfilename l)"
  shows "\<exists>os1. windows_Unlock l os = (None, l, os1) \<and> wlocks os1 (wfilename l) = None \<and>
           faultless os1 (wfilename l)"
  using assms by (simp add: windows_Unlock_def CloseHandle_def fobj_def)

lemma windows_round_trip:
  assumes "faultless os (wfilename l)" and "wlocks os (wfilename l) = None"
  shows "\<exists>l1 os1 os2 l3 os3.
           windows_Lock l os = Some (None, l1, os1) \<and>
           windows_Unlock l1 os1 = (None, l1, os2) \<and>
           windows_Lock l1 os2 = Some (None, l3, os3) \<and>
           wlocks os3 (wfilename l) = Some (ByHandle (handle l3))"
proof -
  obtain l1 os1 where a: "windows_Lock l os = Some (None, l1, os1)" "wfilename l1 = wfilename l"
      "lookup_handle os1 (handle l1) = Some (fobj (wfilename l))"
      "wlocks os1 (wfilename l) = Some (ByHandle (handle l1))" "faultless os1 (wfilename l)"
    using windows_Lock_free [OF assms, of "- 1"] unfolding windows_Lock_def by blast
  obtain os2 where b: "windows_Unlock l1 os1 = (None, l1, os2)" "wlocks os2 (wfilename l1) = None"
      "faultless os2 (wfilename l1)"
    using windows_Unlock_held [of os1 l1] a by auto
  obtain l3 os3 where c: "windows_Lock l1 os2 = Some (None, l3, os3)"
      "wlocks os3 (wfilename l1) = Some (ByHandle (handle l3))"
    using windows_Lock_free [OF b(3,2), of "- 1"] unfolding windows_Lock_def by blast
  show ?thesis
    using a b c by auto
qed


section \<open>Claims\<close>

subsection \<open>C1: a cancelled attempt\<close>

text \<open>
  C1. The claim: when the context ends before the worker's \<open>flock\<close> returns, the
  caller returns the cancellation error, and the worker, once its \<open>flock\<close> has
  succeeded, unlocks and closes, so that the abandoned attempt leaves no lock behind.
  The code does not guarantee the second half. In the run below another process holds
  the lock; the context is cancelled, the caller returns \<open>context.Canceled\<close>, the
  other process lets go, and the worker's \<open>flock\<close> succeeds. Its \<open>select\<close> then has two
  cases that can proceed: \<open>ctx.Done()\<close> is closed, and the channel \<open>result\<close> has
  capacity 1 and is empty. The run takes the send. The worker ends without
  \<open>LOCK_UN\<close> and without \<open>close\<close>: descriptor 3 stays open and holds the lock, and
  no further step of caller, worker or context is possible.
\<close>

theorem C1_abandoned_attempt_keeps_lock:
  "\<exists>c. unix_LockWithContext None
          [CtxFire Canceled, CallerDone, EnvRelease, WorkerFlock, WorkerSend]
          (New ''lock'') unix_held = Some c \<and>
        caller c = Returned (Some Canceled) \<and> worker c = Finished \<and>
        flocks (kern c) ''lock'' = Some (Own 3) \<and> fd (lck c) = 3 \<and>
        lookup_fd (kern c) 3 =
          Some \<lparr>ofd_path = ''lock'', ofd_flags = {O_CREAT, O_RDWR}, cloexec = False\<rparr> \<and>
        trace (kern c) = [SysOpen ''lock'' (Some 3), SysFlock 3 {LOCK_EX}] \<and>
        (\<forall>a. step a c = None)"
proof -
  have "\<exists>c. unix_LockWithContext None
          [CtxFire Canceled, CallerDone, EnvRelease, WorkerFlock, WorkerSend]
          (New ''lock'') unix_held = Some c \<and>
        caller c = Returned (Some Canceled) \<and> worker c = Finished \<and>
        flocks (kern c) ''lock'' = Some (Own 3) \<and> fd (lck c) = 3 \<and>
        filename (lck c) = ''lock'' \<and> ctx_err c \<noteq> None \<and>
        lookup_fd (kern c) 3 =
          Some \<lparr>ofd_path = ''lock'', ofd_flags = {O_CREAT, O_RDWR}, cloexec = False\<rparr> \<and>
        trace (kern c) = [SysOpen ''lock'' (Some 3), SysFlock 3 {LOCK_EX}]"
    by (simp add: unix_eval)
  then obtain c where c:
      "unix_LockWithContext None [CtxFire Canceled, CallerDone, EnvRelease, WorkerFlock, WorkerSend]
          (New ''lock'') unix_held = Some c"
      "caller c = Returned (Some Canceled)" "worker c = Finished"
      "flocks (kern c) ''lock'' = Some (Own 3)" "fd (lck c) = 3" "filename (lck c) = ''lock''"
      "ctx_err c \<noteq> None"
      "lookup_fd (kern c) 3 =
          Some \<lparr>ofd_path = ''lock'', ofd_flags = {O_CREAT, O_RDWR}, cloexec = False\<rparr>"
      "trace (kern c) = [SysOpen ''lock'' (Some 3), SysFlock 3 {LOCK_EX}]"
    by blast
  have "step a c = None" for a
    using c(2-7) by (cases a) auto
  then show ?thesis
    using c by blast
qed


subsection \<open>C2: a timeout of zero\<close>

text \<open>
  C2, as claimed, fails: on a lock held by another process \<open>LockWithTimeout(0)\<close>
  returns \<open>ErrTimeout\<close> on both families, where \<open>TryLock\<close> returns \<open>ErrLocked\<close>.
\<close>

theorem C2_zero_timeout_counterexample:
  "map_option fst (unix_LockWithTimeout 0 [CallerDone] (New ''lock'') unix_held)
     = Some (Some ErrTimeout) \<and>
   map_option fst (unix_TryLock (New ''lock'') unix_held) = Some (Some ErrLocked) \<and>
   map_option fst (windows_LockWithTimeout 0 (windows_New ''lock'') win_held)
     = Some (Some ErrTimeout) \<and>
   map_option fst (windows_TryLock (windows_New ''lock'') win_held) = Some (Some ErrLocked) \<and>
   Some ErrTimeout \<noteq> Some ErrLocked"
  by (simp add: unix_eval win_eval)

text \<open>
  C2, amended. On a lock that is held elsewhere for the whole call (by another
  process, or by this process through another descriptor: by any holder but the
  descriptor that the call itself opens), with the kernel refusing nothing,
  \<open>LockWithTimeout(0)\<close> returns the deadline error \<open>ErrTimeout\<close>: on the
  blocking-syscall family in every schedule in which it returns (and it can return),
  since the context is done from the start and the worker never gets past \<open>flock\<close>;
  on the asynchronous-event family since a wait of 0 ms times out. \<open>TryLock\<close> returns
  \<open>ErrLocked\<close> on both; on the asynchronous-event family it is \<open>TryLock\<close> that turns
  the \<open>ErrTimeout\<close> of \<open>LockWithTimeout(0)\<close> into \<open>ErrLocked\<close>.
\<close>

theorem C2_zero_timeout_is_deadline_error:
  "(open_errno os (filename l) = None \<and> flock_errno os = None \<and>
    flocks os (filename l) = Some h \<and> h \<noteq> Own (int (free_slot (fdtab os))) \<longrightarrow>
      (\<forall>sched r c. EnvRelease \<notin> set sched \<longrightarrow>
         unix_LockWithTimeout 0 sched l os = Some (r, c) \<longrightarrow> r = Some ErrTimeout) \<and>
      (\<exists>c. unix_LockWithTimeout 0 [CallerDone] l os = Some (Some ErrTimeout, c)) \<and>
      map_option fst (unix_TryLock l os) = Some (Some ErrLocked)) \<and>
   (faultless wos (wfilename wl) \<and> wlocks wos (wfilename wl) \<noteq> None \<longrightarrow>
      map_option fst (windows_LockWithTimeout 0 wl wos) = Some (Some ErrTimeout) \<and>
      map_option fst (windows_TryLock wl wos) = Some (Some ErrLocked))"
proof (intro conjI impI)
  assume a: "open_errno os (filename l) = None \<and> flock_errno os = None \<and>
    flocks os (filename l) = Some h \<and> h \<noteq> Own (int (free_slot (fdtab os)))"
  then have h: "open_errno os (filename l) = None" "flock_errno os = None"
    "flocks os (filename l) = Some h" "h \<noteq> Own (int (free_slot (fdtab os)))"
    by simp_all
  show "\<forall>sched r c. EnvRelease \<notin> set sched \<longrightarrow>
         unix_LockWithTimeout 0 sched l os = Some (r, c) \<longrightarrow> r = Some ErrTimeout"
    using h by (rule unix_LockWithTimeout_zero_contended(1))
  show "\<exists>c. unix_LockWithTimeout 0 [CallerDone] l os = Some (Some ErrTimeout, c)"
    using h by (rule unix_LockWithTimeout_zero_contended(2))
  show "map_option fst (unix_TryLock l os) = Some (Some ErrLocked)"
    using unix_TryLock_contended [OF h] by auto
next
  assume a: "faultless wos (wfilename wl) \<and> wlocks wos (wfilename wl) \<noteq> None"
  then show "map_option fst (windows_LockWithTimeout 0 wl wos) = Some (Some ErrTimeout)"
    by (simp add: windows_contended_zero(1))
  from a show "map_option fst (windows_TryLock wl wos) = Some (Some ErrLocked)"
    by (simp add: windows_contended_zero(2))
qed

theorem C2_zero_timeout_is_deadline_error_witness:
  "(open_errno unix_held ''lock'' = None \<and> flock_errno unix_held = None \<and>
    flocks unix_held ''lock'' = Some Other \<and>
    Other \<noteq> Own (int (free_slot (fdtab unix_held)))) \<and>
   (open_errno unix_held_self ''lock'' = None \<and> flock_errno unix_held_self = None \<and>
    flocks unix_held_self ''lock'' = Some (Own 3) \<and>
    Own 3 \<noteq> Own (int (free_slot (fdtab unix_held_self)))) \<and>
   (faultless win_held ''lock'' \<and> wlocks win_held ''lock'' \<noteq> None) \<and>
   EnvRelease \<notin> set [CallerDone] \<and>
   map_option fst (unix_LockWithTimeout 0 [CallerDone] (New ''lock'') unix_held)
     = Some (Some ErrTimeout) \<and>
   map_option fst (unix_TryLock (New ''lock'') unix_held) = Some (Some ErrLocked) \<and>
   map_option fst (unix_LockWithTimeout 0 [CallerDone] (New ''lock'') unix_held_self)
     = Some (Some ErrTimeout) \<and>
   map_option fst (unix_TryLock (New ''lock'') unix_held_self) = Some (Some ErrLocked) \<and>
   map_option fst (windows_LockWithTimeout 0 (windows_New ''lock'') win_held)
     = Some (Some ErrTimeout) \<and>
   map_option fst (windows_TryLock (windows_New ''lock'') win_held) = Some (Some ErrLocked)"
  using C2_zero_timeout_is_deadline_error
    [where os = unix_held and l = "New ''lock''" and h = Other and wos = win_held
       and wl = "windows_New ''lock''"]
    C2_zero_timeout_is_deadline_error
    [where os = unix_held_self and l = "New ''lock''" and h = "Own 3" and wos = win_held
       and wl = "windows_New ''lock''"]
  by (simp add: unix_held_def unix_held_self_def unix_boot_def New_def faultless_def win_held_def
      win_boot_def windows_New_def)


subsection \<open>C3: Unlock before any open\<close>

text \<open>
  C3. On an instance fresh from \<open>New\<close>, and on one whose \<open>open\<close> has failed (which
  leaves it as \<open>New\<close> made it), \<open>Unlock\<close> of the blocking-syscall family sees the
  descriptor \<open>-1\<close>, returns \<open>nil\<close> and leaves instance and kernel as they are (no
  system call is made). \<open>Unlock\<close> of the asynchronous-event family has no such test:
  on an instance fresh from \<open>New\<close>, also after a \<open>CreateFile\<close> that failed, it closes
  the null handle and returns the error of \<open>CloseHandle\<close>, so there the claim is not
  met.
\<close>

theorem C3_unlock_unopened:
  "unix_Unlock (New name) os = (None, New name, os) \<and>
   (unix_open (New name) os = (Some e, la, osa) \<longrightarrow>
      la = New name \<and> unix_Unlock la osa = (None, la, osa)) \<and>
   windows_Unlock (windows_New name) wos
     = (Some (Errno ERROR_INVALID_HANDLE), windows_New name, wos) \<and>
   (CHR 0x00 \<notin> set name \<and> createfile_errno wos name = Some e' \<longrightarrow>
      windows_LockWithTimeout timeout (windows_New name) wos
        = Some (Some (Errno e'), windows_New name, wos))"
proof (intro conjI impI)
  show "unix_Unlock (New name) os = (None, New name, os)"
    by (rule unix_Unlock_New)
  show "windows_Unlock (windows_New name) wos
     = (Some (Errno ERROR_INVALID_HANDLE), windows_New name, wos)"
    by (simp add: windows_Unlock_def windows_New_def CloseHandle_def lookup_handle_def)
next
  assume "unix_open (New name) os = (Some e, la, osa)"
  then have "la = New name"
    by (auto dest: unix_open_fail)
  then show "la = New name" "unix_Unlock la osa = (None, la, osa)"
    by (simp_all add: unix_Unlock_New)
next
  assume "CHR 0x00 \<notin> set name \<and> createfile_errno wos name = Some e'"
  then show "windows_LockWithTimeout timeout (windows_New name) wos
        = Some (Some (Errno e'), windows_New name, wos)"
    using windows_open_fault [of "windows_New name" wos e' timeout]
    by (simp add: windows_New_def)
qed

theorem C3_unlock_unopened_witness:
  "(\<exists>la osa. unix_open (New ''lock'') unix_refusing = (Some (Errno EACCES), la, osa) \<and>
      la = New ''lock'' \<and> unix_Unlock la osa = (None, la, osa)) \<and>
   (CHR 0x00 \<notin> set ''lock'' \<and> createfile_errno win_open_fault ''lock'' = Some ERROR_ACCESS_DENIED) \<and>
   windows_LockWithTimeout 5 (windows_New ''lock'') win_open_fault
     = Some (Some (Errno ERROR_ACCESS_DENIED), windows_New ''lock'', win_open_fault) \<and>
   windows_Unlock (windows_New ''lock'') win_open_fault
     = (Some (Errno ERROR_INVALID_HANDLE), windows_New ''lock'', win_open_fault)"
proof -
  obtain la osa where a: "unix_open (New ''lock'') unix_refusing = (Some (Errno EACCES), la, osa)"
    by (simp add: unix_eval unix_refusing_def unix_with_file_def)
  have w: "CHR 0x00 \<notin> set ''lock'' \<and> createfile_errno win_open_fault ''lock'' = Some ERROR_ACCESS_DENIED"
    by (simp add: win_open_fault_def)
  show ?thesis
    using C3_unlock_unopened [where name = "''lock''" and os = unix_refusing and e = "Errno EACCES"
        and la = la and osa = osa and wos = win_open_fault and e' = ERROR_ACCESS_DENIED
        and timeout = 5] a w
    by auto
qed


subsection \<open>C4: which error a bounded wait returns\<close>





subsection \<open>C5: TryLock on a held lock\<close>

text \<open>
  C5. When the lock is held elsewhere (by another process, or by this process through
  another descriptor: by any holder but the descriptor that this attempt opens) and
  the kernel refuses neither the open nor the lock request for another reason,
  \<open>TryLock\<close> returns \<open>ErrLocked\<close>. On the blocking-syscall family its system calls are
  \<open>open\<close>, the non-blocking \<open>flock\<close> and \<open>close\<close> of the descriptor just opened: at
  the return that descriptor is closed, the descriptor table reads as before the call,
  and the holder still holds the lock. On the asynchronous-event family \<open>TryLock\<close>
  returns \<open>ErrLocked\<close> as well.
\<close>

theorem C5_TryLock_contended:
  "(open_errno os (filename l) = None \<and> flock_errno os = None \<and>
    flocks os (filename l) = Some h \<and> h \<noteq> Own (int (free_slot (fdtab os))) \<longrightarrow>
      (\<exists>l1 os1. unix_TryLock l os = Some (Some ErrLocked, l1, os1) \<and>
         trace os1 = trace os @ [SysOpen (filename l) (Some (fd l1)),
            SysFlock (fd l1) {LOCK_EX, LOCK_NB}, SysClose (fd l1)] \<and>
         lookup_fd os1 (fd l1) = None \<and> (\<forall>n. lookup_fd os1 n = lookup_fd os n) \<and>
         flocks os1 = flocks os)) \<and>
   (faultless wos (wfilename wl) \<and> wlocks wos (wfilename wl) \<noteq> None \<longrightarrow>
      map_option fst (windows_TryLock wl wos) = Some (Some ErrLocked))"
proof (intro conjI impI)
  assume "open_errno os (filename l) = None \<and> flock_errno os = None \<and>
    flocks os (filename l) = Some h \<and> h \<noteq> Own (int (free_slot (fdtab os)))"
  then have h: "open_errno os (filename l) = None" "flock_errno os = None"
    "flocks os (filename l) = Some h" "h \<noteq> Own (int (free_slot (fdtab os)))"
    by simp_all
  obtain l1 os1 where t: "unix_TryLock l os = Some (Some ErrLocked, l1, os1)"
    and k: "lookup_fd os1 (fd l1) = None" "\<forall>n. lookup_fd os1 n = lookup_fd os n"
      "flocks os1 = flocks os"
    using unix_TryLock_contended [OF h] by blast
  show "\<exists>l1 os1. unix_TryLock l os = Some (Some ErrLocked, l1, os1) \<and>
         trace os1 = trace os @ [SysOpen (filename l) (Some (fd l1)),
            SysFlock (fd l1) {LOCK_EX, LOCK_NB}, SysClose (fd l1)] \<and>
         lookup_fd os1 (fd l1) = None \<and> (\<forall>n. lookup_fd os1 n = lookup_fd os n) \<and>
         flocks os1 = flocks os"
    using t k unix_TryLock_failure_trace [OF t h(1)] by blast
next
  assume "faultless wos (wfilename wl) \<and> wlocks wos (wfilename wl) \<noteq> None"
  then show "map_option fst (windows_TryLock wl wos) = Some (Some ErrLocked)"
    by (simp add: windows_contended_zero(2))
qed

theorem C5_TryLock_contended_witness:
  "(open_errno unix_held ''lock'' = None \<and> flock_errno unix_held = None \<and>
    flocks unix_held ''lock'' = Some Other \<and> Other \<noteq> Own (int (free_slot (fdtab unix_held)))) \<and>
   unix_TryLock (New ''lock'') unix_held =
     Some (Some ErrLocked, \<lparr>filename = ''lock'', fd = 3\<rparr>,
       unix_held\<lparr>trace := [SysOpen ''lock'' (Some 3), SysFlock 3 {LOCK_EX, LOCK_NB}, SysClose 3],
                  fdtab := [Some tty, Some tty, Some tty, None]\<rparr>) \<and>
   (open_errno unix_held_self ''lock'' = None \<and> flock_errno unix_held_self = None \<and>
    flocks unix_held_self ''lock'' = Some (Own 3) \<and>
    Own 3 \<noteq> Own (int (free_slot (fdtab unix_held_self)))) \<and>
   unix_TryLock (New ''lock'') unix_held_self =
     Some (Some ErrLocked, \<lparr>filename = ''lock'', fd = 4\<rparr>,
       unix_held_self\<lparr>trace := [SysOpen ''lock'' (Some 4), SysFlock 4 {LOCK_EX, LOCK_NB}, SysClose 4],
                  fdtab := fdtab unix_held_self @ [None]\<rparr>) \<and>
   (faultless win_held ''lock'' \<and> wlocks win_held ''lock'' \<noteq> None) \<and>
   map_option fst (windows_TryLock (windows_New ''lock'') win_held) = Some (Some ErrLocked)"
proof -
  have u: "open_errno unix_held ''lock'' = None \<and> flock_errno unix_held = None \<and>
    flocks unix_held ''lock'' = Some Other \<and> Other \<noteq> Own (int (free_slot (fdtab unix_held)))"
    by (simp_all add: unix_held_def unix_boot_def)
  have s: "open_errno unix_held_self ''lock'' = None \<and> flock_errno unix_held_self = None \<and>
    flocks unix_held_self ''lock'' = Some (Own 3) \<and>
    Own 3 \<noteq> Own (int (free_slot (fdtab unix_held_self)))"
    by (simp_all add: unix_held_self_def unix_boot_def)
  have w: "faultless win_held ''lock'' \<and> wlocks win_held ''lock'' \<noteq> None"
    by (simp add: faultless_def win_held_def win_boot_def)
  have e1: "unix_TryLock (New ''lock'') unix_held =
     Some (Some ErrLocked, \<lparr>filename = ''lock'', fd = 3\<rparr>,
       unix_held\<lparr>trace := [SysOpen ''lock'' (Some 3), SysFlock 3 {LOCK_EX, LOCK_NB}, SysClose 3],
                  fdtab := [Some tty, Some tty, Some tty, None]\<rparr>)"
    by (simp add: unix_eval)
  have e2: "unix_TryLock (New ''lock'') unix_held_self =
     Some (Some ErrLocked, \<lparr>filename = ''lock'', fd = 4\<rparr>,
       unix_held_self\<lparr>trace := [SysOpen ''lock'' (Some 4), SysFlock 4 {LOCK_EX, LOCK_NB}, SysClose 4],
                  fdtab := fdtab unix_held_self @ [None]\<rparr>)"
    by (simp add: unix_eval unix_held_self_def)
  show ?thesis
    using C5_TryLock_contended
      [where os = unix_held and l = "New ''lock''" and h = Other and wos = win_held and wl = "windows_New ''lock''"]
      C5_TryLock_contended
      [where os = unix_held_self and l = "New ''lock''" and h = "Own 3" and wos = win_held and wl = "windows_New ''lock''"]
      u s w e1 e2
    by (simp add: New_def windows_New_def)
qed


subsection \<open>C6: the opener\<close>

text \<open>
  C6, as claimed, fails on the asynchronous-event family: the handle that
  \<open>LockWithTimeout\<close> opens has read access only.
\<close>

theorem C6_opener_counterexample:
  "windows_LockWithTimeout 0 (windows_New ''lock'') win_boot =
     Some (None, \<lparr>wfilename = ''lock'', handle = 1\<rparr>,
       win_boot\<lparr>wfiles := [''lock'' \<mapsto> []],
         handles := [Some (FileObj ''lock'' {GENERIC_READ} {FILE_SHARE_READ}
                       {FILE_FLAG_OVERLAPPED, FILE_ATTRIBUTE_NORMAL}), None],
         wlocks := [''lock'' \<mapsto> ByHandle 1]\<rparr>) \<and>
   GENERIC_WRITE \<notin> {GENERIC_READ}"
  by (simp add: win_eval)

text \<open>
  C6, amended. Blocking-syscall family: a successful \<open>open\<close> creates a missing file
  empty with mode \<open>0600\<close> less the bits of the umask (never a group or other bit, and
  \<open>0600\<close> itself when the umask leaves the owner's bits), opens it \<open>O_RDWR\<close> without
  \<open>O_TRUNC\<close>, and leaves every existing file as it is; a failed \<open>open\<close> changes no
  file. Asynchronous-event family: the file is created empty when missing
  (\<open>OPEN_ALWAYS\<close>) and existing contents stay as they are, but the handle is opened with
  \<open>GENERIC_READ\<close> access only, shared for reading.
\<close>

theorem C6_opener:
  "(unix_open l os = (None, l1, os1) \<longrightarrow>
      (files os (filename l) = None \<longrightarrow>
         (\<exists>f. files os1 (filename l) = Some f \<and> content f = [] \<and>
              perm f = mode_0600 AND NOT (umask os) \<and> perm f AND 0x3F = 0 \<and>
              (umask os AND mode_0600 = 0 \<longrightarrow> perm f = mode_0600))) \<and>
      (\<exists>d. lookup_fd os1 (fd l1) = Some d \<and> ofd_path d = filename l \<and>
           O_RDWR \<in> ofd_flags d \<and> O_TRUNC \<notin> ofd_flags d) \<and>
      (\<forall>p f. files os p = Some f \<longrightarrow> files os1 p = Some f)) \<and>
   (unix_open l os = (Some e, l2, os2) \<longrightarrow> files os2 = files os) \<and>
   (windows_LockWithTimeout timeout wl wos = Some (None, wl1, wos1) \<longrightarrow>
      lookup_handle wos1 (handle wl1) =
        Some (FileObj (wfilename wl) {GENERIC_READ} {FILE_SHARE_READ}
               {FILE_FLAG_OVERLAPPED, FILE_ATTRIBUTE_NORMAL}) \<and>
      (wfiles wos (wfilename wl) = None \<longrightarrow> wfiles wos1 (wfilename wl) = Some [])) \<and>
   (windows_LockWithTimeout timeout wl wos = Some (r, wl2, wos2) \<longrightarrow>
      (\<forall>p b. wfiles wos p = Some b \<longrightarrow> wfiles wos2 p = Some b))"
proof (intro conjI impI allI)
  assume o: "unix_open l os = (None, l1, os1)"
  note ok = unix_open_ok [OF o] and lk = unix_open_lookup [OF o]
  show "\<exists>f. files os1 (filename l) = Some f \<and> content f = [] \<and>
              perm f = mode_0600 AND NOT (umask os) \<and> perm f AND 0x3F = 0 \<and>
              (umask os AND mode_0600 = 0 \<longrightarrow> perm f = mode_0600)"
    if "files os (filename l) = None"
    using ok that mode_owner_only [of "umask os"] mode_umask [of "umask os"] by simp
  show "\<exists>d. lookup_fd os1 (fd l1) = Some d \<and> ofd_path d = filename l \<and>
           O_RDWR \<in> ofd_flags d \<and> O_TRUNC \<notin> ofd_flags d"
    using lk by (simp add: new_ofd_def)
  show "files os1 p = Some f" if "files os p = Some f" for p f
    using ok that by (auto split: option.splits)
next
  assume "unix_open l os = (Some e, l2, os2)"
  then show "files os2 = files os"
    by (auto dest: unix_open_fail)
next
  assume s: "windows_LockWithTimeout timeout wl wos = Some (None, wl1, wos1)"
  show "lookup_handle wos1 (handle wl1) =
        Some (FileObj (wfilename wl) {GENERIC_READ} {FILE_SHARE_READ}
               {FILE_FLAG_OVERLAPPED, FILE_ATTRIBUTE_NORMAL})"
    using windows_handle_on_success [OF s] by (auto simp: fobj_def)
  show "wfiles wos1 (wfilename wl) = Some []" if "wfiles wos (wfilename wl) = None"
    using windows_success_file [OF s] that by simp
next
  fix p b
  assume "windows_LockWithTimeout timeout wl wos = Some (r, wl2, wos2)" and "wfiles wos p = Some b"
  then show "wfiles wos2 p = Some b"
    by (rule windows_files_kept)
qed

theorem C6_opener_witness:
  "(\<exists>l1 os1. unix_open (New ''lock'') unix_boot = (None, l1, os1) \<and>
      files unix_boot ''lock'' = None \<and> umask unix_boot AND mode_0600 = 0 \<and>
      (\<exists>f. files os1 ''lock'' = Some f \<and> content f = [] \<and> perm f = mode_0600) \<and>
      (\<exists>d. lookup_fd os1 (fd l1) = Some d \<and> O_RDWR \<in> ofd_flags d)) \<and>
   (\<exists>l1 os1. unix_open (New ''lock'') unix_with_file = (None, l1, os1) \<and>
      files unix_with_file ''lock'' = Some \<lparr>perm = 0x1A4, content = [1, 2, 3]\<rparr> \<and>
      files os1 ''lock'' = Some \<lparr>perm = 0x1A4, content = [1, 2, 3]\<rparr>) \<and>
   (\<exists>l2 os2. unix_open (New ''lock'') unix_refusing = (Some (Errno EACCES), l2, os2) \<and>
      files os2 = files unix_refusing) \<and>
   (\<exists>wl1 wos1. windows_LockWithTimeout 0 (windows_New ''lock'') win_boot = Some (None, wl1, wos1) \<and>
      wfiles win_boot ''lock'' = None \<and> wfiles wos1 ''lock'' = Some [] \<and>
      lookup_handle wos1 (handle wl1) =
        Some (FileObj ''lock'' {GENERIC_READ} {FILE_SHARE_READ}
               {FILE_FLAG_OVERLAPPED, FILE_ATTRIBUTE_NORMAL})) \<and>
   (\<exists>wl2 wos2. windows_LockWithTimeout 0 (windows_New ''lock'') win_with_file = Some (None, wl2, wos2) \<and>
      wfiles win_with_file ''lock'' = Some [1, 2, 3] \<and> wfiles wos2 ''lock'' = Some [1, 2, 3])"
proof -
  obtain l1 os1 where a: "unix_open (New ''lock'') unix_boot = (None, l1, os1)"
    by (simp add: unix_eval)
  obtain l1' os1' where b: "unix_open (New ''lock'') unix_with_file = (None, l1', os1')"
    by (simp add: unix_eval unix_with_file_def)
  obtain l2 os2 where c: "unix_open (New ''lock'') unix_refusing = (Some (Errno EACCES), l2, os2)"
    by (simp add: unix_eval unix_with_file_def unix_refusing_def)
  obtain wl1 wos1 where d: "windows_LockWithTimeout 0 (windows_New ''lock'') win_boot = Some (None, wl1, wos1)"
    by (simp add: win_eval)
  obtain wl2 wos2 where e: "windows_LockWithTimeout 0 (windows_New ''lock'') win_with_file = Some (None, wl2, wos2)"
    by (simp add: win_eval win_with_file_def)
  have s: "files unix_boot ''lock'' = None" "umask unix_boot AND mode_0600 = 0"
    "files unix_with_file ''lock'' = Some \<lparr>perm = 0x1A4, content = [1, 2, 3]\<rparr>"
    "wfiles win_boot ''lock'' = None" "wfiles win_with_file ''lock'' = Some [1, 2, 3]"
    by (simp_all add: unix_boot_def unix_with_file_def mode_0600_def win_boot_def win_with_file_def)
  note i1 = C6_opener [where l = "New ''lock''" and os = unix_boot and ?l1.0 = l1 and ?os1.0 = os1
      and e = "Errno EACCES" and ?l2.0 = l2 and ?os2.0 = os2
      and timeout = 0 and wl = "windows_New ''lock''" and wos = win_boot
      and ?wl1.0 = wl1 and ?wos1.0 = wos1 and r = None and ?wl2.0 = wl1 and ?wos2.0 = wos1]
  note i2 = C6_opener [where l = "New ''lock''" and os = unix_with_file and ?l1.0 = l1' and ?os1.0 = os1'
      and e = "Errno EACCES" and ?l2.0 = l2 and ?os2.0 = os2
      and timeout = 0 and wl = "windows_New ''lock''" and wos = win_with_file
      and ?wl1.0 = wl2 and ?wos1.0 = wos2 and r = None and ?wl2.0 = wl2 and ?wos2.0 = wos2]
  note i3 = C6_opener [where l = "New ''lock''" and os = unix_refusing and ?l1.0 = l1 and ?os1.0 = os1
      and e = "Errno EACCES" and ?l2.0 = l2 and ?os2.0 = os2
      and timeout = 0 and wl = "windows_New ''lock''" and wos = win_boot
      and ?wl1.0 = wl1 and ?wos1.0 = wos1 and r = None and ?wl2.0 = wl1 and ?wos2.0 = wos1]
  have "(\<exists>f. files os1 ''lock'' = Some f \<and> content f = [] \<and> perm f = mode_0600) \<and>
      (\<exists>d. lookup_fd os1 (fd l1) = Some d \<and> O_RDWR \<in> ofd_flags d)"
    using i1 a s by (auto simp: New_def)
  moreover have "files os1' ''lock'' = Some \<lparr>perm = 0x1A4, content = [1, 2, 3]\<rparr>"
    using i2 b s by (simp add: New_def)
  moreover have "files os2 = files unix_refusing"
    using i3 c by simp
  moreover have "wfiles wos1 ''lock'' = Some [] \<and> lookup_handle wos1 (handle wl1) =
        Some (FileObj ''lock'' {GENERIC_READ} {FILE_SHARE_READ}
               {FILE_FLAG_OVERLAPPED, FILE_ATTRIBUTE_NORMAL})"
    using i1 d s by (simp add: windows_New_def)
  moreover have "wfiles wos2 ''lock'' = Some [1, 2, 3]"
    using i2 e s by simp
  ultimately show ?thesis
    using a b c d e s by blast
qed


subsection \<open>C7: handles per instance\<close>

text \<open>
  C7, as claimed, fails: \<open>Lock\<close>, \<open>Unlock\<close>, \<open>Lock\<close> on one instance opens the
  file twice, so two handles are created over the life of the instance.
\<close>

theorem C7_one_handle_counterexample:
  "map_option (trace \<circ> snd \<circ> snd) (unix_Lock_Unlock_Lock (New ''lock'') unix_boot) =
     Some [SysOpen ''lock'' (Some 3), SysFlock 3 {LOCK_EX}, SysClose 3,
           SysOpen ''lock'' (Some 3), SysFlock 3 {LOCK_EX}] \<and>
   map_option (created \<circ> trace \<circ> snd \<circ> snd) (unix_Lock_Unlock_Lock (New ''lock'') unix_boot)
     = Some 2 \<and>
   \<not> (2 :: nat) \<le> 1"
  by (simp add: unix_Lock_Unlock_Lock_def unix_eval created_def)

text \<open>
  C7, amended. Every acquisition attempt (\<open>Lock\<close>, \<open>TryLock\<close>,
  \<open>LockWithContext\<close>, \<open>LockWithTimeout\<close>) calls the opener exactly once and so creates
  at most one handle, and exactly one when it returns \<open>nil\<close>; \<open>Unlock\<close> opens nothing.
  An instance opens anew on each attempt.
\<close>

theorem C7_one_open_per_attempt:
  "(unix_Lock l os = Some (e, la, osa) \<longrightarrow>
      opens (trace osa) = Suc (opens (trace os)) \<and>
      created (trace osa) \<le> Suc (created (trace os)) \<and>
      (e = None \<longrightarrow> created (trace osa) = Suc (created (trace os)))) \<and>
   (unix_TryLock l os = Some (e, lb, osb) \<longrightarrow>
      opens (trace osb) = Suc (opens (trace os)) \<and>
      created (trace osb) \<le> Suc (created (trace os)) \<and>
      (e = None \<longrightarrow> created (trace osb) = Suc (created (trace os)))) \<and>
   (unix_LockWithContext cx sched l os = Some c \<longrightarrow>
      opens (trace (kern c)) = Suc (opens (trace os)) \<and>
      created (trace (kern c)) \<le> Suc (created (trace os))) \<and>
   (unix_LockWithTimeout timeout sched l os = Some (r, c') \<longrightarrow>
      opens (trace (kern c')) = Suc (opens (trace os)) \<and>
      created (trace (kern c')) \<le> Suc (created (trace os))) \<and>
   opens (trace (snd (snd (unix_Unlock l os)))) = opens (trace os)"
proof (intro conjI impI)
  assume a: "unix_Lock l os = Some (e, la, osa)"
  show "opens (trace osa) = Suc (opens (trace os))"
    "created (trace osa) \<le> Suc (created (trace os))"
    using unix_Lock_opens [OF a] by simp_all
  show "created (trace osa) = Suc (created (trace os))" if "e = None"
    using a that by (auto intro: unix_Lock_created)
next
  assume a: "unix_TryLock l os = Some (e, lb, osb)"
  show "opens (trace osb) = Suc (opens (trace os))"
    "created (trace osb) \<le> Suc (created (trace os))"
    using unix_TryLock_opens [OF a] by simp_all
  show "created (trace osb) = Suc (created (trace os))" if "e = None"
    using a that by (auto intro: unix_TryLock_created)
next
  assume a: "unix_LockWithContext cx sched l os = Some c"
  show "opens (trace (kern c)) = Suc (opens (trace os))"
    "created (trace (kern c)) \<le> Suc (created (trace os))"
    using unix_LockWithContext_opens [OF a] by simp_all
next
  assume a: "unix_LockWithTimeout timeout sched l os = Some (r, c')"
  show "opens (trace (kern c')) = Suc (opens (trace os))"
    "created (trace (kern c')) \<le> Suc (created (trace os))"
    using unix_LockWithTimeout_opens [OF a] by simp_all
next
  show "opens (trace (snd (snd (unix_Unlock l os)))) = opens (trace os)"
    using unix_Unlock_opens by blast
qed

theorem C7_one_open_per_attempt_witness:
  "(\<exists>la osa. unix_Lock (New ''lock'') unix_boot = Some (None, la, osa) \<and>
      opens (trace osa) = 1 \<and> created (trace osa) = 1) \<and>
   (\<exists>lb osb. unix_TryLock (New ''lock'') unix_boot = Some (None, lb, osb) \<and>
      opens (trace osb) = 1 \<and> created (trace osb) = 1) \<and>
   (\<exists>c. unix_LockWithContext None [WorkerFlock, WorkerSend, CallerRecv] (New ''lock'') unix_boot
           = Some c \<and>
      opens (trace (kern c)) = 1 \<and> created (trace (kern c)) \<le> 1) \<and>
   (\<exists>c. unix_LockWithTimeout 5 [WorkerFlock, WorkerSend, CallerRecv] (New ''lock'') unix_boot
           = Some (None, c) \<and>
      opens (trace (kern c)) = 1 \<and> created (trace (kern c)) \<le> 1)"
proof -
  obtain la osa where a: "unix_Lock (New ''lock'') unix_boot = Some (None, la, osa)"
    by (simp add: unix_eval)
  obtain lb osb where b: "unix_TryLock (New ''lock'') unix_boot = Some (None, lb, osb)"
    by (simp add: unix_eval)
  obtain c where c:
    "unix_LockWithContext None [WorkerFlock, WorkerSend, CallerRecv] (New ''lock'') unix_boot = Some c"
    by (simp add: unix_eval)
  obtain c' where c':
    "unix_LockWithTimeout 5 [WorkerFlock, WorkerSend, CallerRecv] (New ''lock'') unix_boot
       = Some (None, c')"
    by (simp add: unix_eval word_sle_eq)
  have z: "opens (trace unix_boot) = 0" "created (trace unix_boot) = 0"
    by (simp_all add: unix_boot_def opens_def created_def)
  note inst = C7_one_open_per_attempt
    [where l = "New ''lock''" and os = unix_boot and e = None and la = la and osa = osa
       and lb = lb and osb = osb and cx = None and sched = "[WorkerFlock, WorkerSend, CallerRecv]"
       and c = c and timeout = 5 and r = None and c' = c']
  show ?thesis
    using inst a b c c' z by simp
qed


subsection \<open>C8: Lock, Unlock, Lock\<close>

text \<open>
  C8. On an uncontended path (no other holder of the lock, the kernel refusing
  nothing), \<open>Lock\<close>, then \<open>Unlock\<close>, then \<open>Lock\<close> on the same instance all return
  \<open>nil\<close>, and the instance holds the lock at the end; on both families.
\<close>

theorem C8_lock_unlock_lock:
  "(open_errno os (filename l) = None \<and> flock_errno os = None \<and>
    flocks os (filename l) = None \<longrightarrow>
      (\<exists>la osa osb lc osc.
         unix_Lock l os = Some (None, la, osa) \<and>
         unix_Unlock la osa = (None, la, osb) \<and>
         unix_Lock la osb = Some (None, lc, osc) \<and>
         flocks osc (filename l) = Some (Own (fd lc)))) \<and>
   (faultless wos (wfilename wl) \<and> wlocks wos (wfilename wl) = None \<longrightarrow>
      (\<exists>wla wosa wosb wlc wosc.
         windows_Lock wl wos = Some (None, wla, wosa) \<and>
         windows_Unlock wla wosa = (None, wla, wosb) \<and>
         windows_Lock wla wosb = Some (None, wlc, wosc) \<and>
         wlocks wosc (wfilename wl) = Some (ByHandle (handle wlc))))"
proof (intro conjI impI)
  assume "open_errno os (filename l) = None \<and> flock_errno os = None \<and>
    flocks os (filename l) = None"
  then have h: "open_errno os (filename l) = None" "flock_errno os = None"
    "flocks os (filename l) = None"
    by simp_all
  show "\<exists>la osa osb lc osc.
         unix_Lock l os = Some (None, la, osa) \<and>
         unix_Unlock la osa = (None, la, osb) \<and>
         unix_Lock la osb = Some (None, lc, osc) \<and>
         flocks osc (filename l) = Some (Own (fd lc))"
    using h by (rule unix_round_trip)
next
  assume "faultless wos (wfilename wl) \<and> wlocks wos (wfilename wl) = None"
  then have h: "faultless wos (wfilename wl)" "wlocks wos (wfilename wl) = None"
    by simp_all
  show "\<exists>wla wosa wosb wlc wosc.
         windows_Lock wl wos = Some (None, wla, wosa) \<and>
         windows_Unlock wla wosa = (None, wla, wosb) \<and>
         windows_Lock wla wosb = Some (None, wlc, wosc) \<and>
         wlocks wosc (wfilename wl) = Some (ByHandle (handle wlc))"
    using h by (rule windows_round_trip)
qed

theorem C8_lock_unlock_lock_witness:
  "(open_errno unix_boot ''lock'' = None \<and> flock_errno unix_boot = None \<and>
    flocks unix_boot ''lock'' = None) \<and>
   (\<exists>la osa osb lc osc.
      unix_Lock (New ''lock'') unix_boot = Some (None, la, osa) \<and>
      unix_Unlock la osa = (None, la, osb) \<and>
      unix_Lock la osb = Some (None, lc, osc) \<and>
      flocks osc ''lock'' = Some (Own (fd lc))) \<and>
   (faultless win_boot ''lock'' \<and> wlocks win_boot ''lock'' = None) \<and>
   (\<exists>wla wosa wosb wlc wosc.
      windows_Lock (windows_New ''lock'') win_boot = Some (None, wla, wosa) \<and>
      windows_Unlock wla wosa = (None, wla, wosb) \<and>
      windows_Lock wla wosb = Some (None, wlc, wosc) \<and>
      wlocks wosc ''lock'' = Some (ByHandle (handle wlc)))"
proof -
  have u: "open_errno unix_boot ''lock'' = None \<and> flock_errno unix_boot = None \<and>
    flocks unix_boot ''lock'' = None"
    by (simp add: unix_boot_def)
  have w: "faultless win_boot ''lock'' \<and> wlocks win_boot ''lock'' = None"
    by (simp add: faultless_def win_boot_def)
  show ?thesis
    using C8_lock_unlock_lock
      [where l = "New ''lock''" and os = unix_boot and wl = "windows_New ''lock''" and wos = win_boot]
      u w
    by (simp add: New_def windows_New_def)
qed


subsection \<open>C9: close-on-exec\<close>

text \<open>
  C9. On the blocking-syscall family a \<open>TryLock\<close> that returns \<open>nil\<close> has set the
  close-on-exec flag of the descriptor it opened (\<open>open\<close> itself does not set it). A
  \<open>TryLock\<close> that returns an error has made no \<open>CloseOnExec\<close> call and leaves the
  descriptor table as it was; when the open had succeeded, the descriptor was closed
  instead.
\<close>

theorem C9_close_on_exec:
  "(unix_TryLock l os = Some (None, l1, os1) \<longrightarrow>
      (\<exists>d. lookup_fd os1 (fd l1) = Some d \<and> ofd_path d = filename l \<and> cloexec d) \<and>
      trace os1 = trace os @ [SysOpen (filename l) (Some (fd l1)),
         SysFlock (fd l1) {LOCK_EX, LOCK_NB}, SysCloseOnExec (fd l1)]) \<and>
   (unix_TryLock l os = Some (Some e, l2, os2) \<longrightarrow>
      cloexec_calls (trace os2) = cloexec_calls (trace os) \<and>
      (\<forall>n. lookup_fd os2 n = lookup_fd os n) \<and>
      (open_errno os (filename l) = None \<longrightarrow>
         trace os2 = trace os @ [SysOpen (filename l) (Some (fd l2)),
           SysFlock (fd l2) {LOCK_EX, LOCK_NB}, SysClose (fd l2)]))"
proof (intro conjI impI)
  assume a: "unix_TryLock l os = Some (None, l1, os1)"
  show "\<exists>d. lookup_fd os1 (fd l1) = Some d \<and> ofd_path d = filename l \<and> cloexec d"
    using unix_TryLock_success [OF a] by (auto simp: new_ofd_def)
  show "trace os1 = trace os @ [SysOpen (filename l) (Some (fd l1)),
         SysFlock (fd l1) {LOCK_EX, LOCK_NB}, SysCloseOnExec (fd l1)]"
    using unix_TryLock_success [OF a] by simp
next
  assume a: "unix_TryLock l os = Some (Some e, l2, os2)"
  show "cloexec_calls (trace os2) = cloexec_calls (trace os)"
    using unix_TryLock_failure [OF a] by simp
  show "\<forall>n. lookup_fd os2 n = lookup_fd os n"
    using unix_TryLock_failure [OF a] by simp
  show "trace os2 = trace os @ [SysOpen (filename l) (Some (fd l2)),
           SysFlock (fd l2) {LOCK_EX, LOCK_NB}, SysClose (fd l2)]"
    if "open_errno os (filename l) = None"
    using unix_TryLock_failure_trace [OF a that] by simp
qed

theorem C9_close_on_exec_witness:
  "(\<exists>l1 os1. unix_TryLock (New ''lock'') unix_boot = Some (None, l1, os1) \<and>
      (\<exists>d. lookup_fd os1 (fd l1) = Some d \<and> ofd_path d = ''lock'' \<and> cloexec d) \<and>
      trace os1 = [SysOpen ''lock'' (Some (fd l1)),
         SysFlock (fd l1) {LOCK_EX, LOCK_NB}, SysCloseOnExec (fd l1)]) \<and>
   (\<exists>l2 os2. unix_TryLock (New ''lock'') unix_held = Some (Some ErrLocked, l2, os2) \<and>
      open_errno unix_held ''lock'' = None \<and>
      cloexec_calls (trace os2) = [] \<and>
      (\<forall>n. lookup_fd os2 n = lookup_fd unix_held n) \<and>
      trace os2 = [SysOpen ''lock'' (Some (fd l2)),
         SysFlock (fd l2) {LOCK_EX, LOCK_NB}, SysClose (fd l2)])"
proof -
  obtain l1 os1 where a: "unix_TryLock (New ''lock'') unix_boot = Some (None, l1, os1)"
    by (simp add: unix_eval)
  obtain l2 os2 where b: "unix_TryLock (New ''lock'') unix_held = Some (Some ErrLocked, l2, os2)"
    by (simp add: unix_eval)
  have u: "open_errno unix_held ''lock'' = None" "trace unix_held = []" "trace unix_boot = []"
    by (simp_all add: unix_held_def unix_boot_def)
  have "(\<exists>d. lookup_fd os1 (fd l1) = Some d \<and> ofd_path d = ''lock'' \<and> cloexec d) \<and>
      trace os1 = [SysOpen ''lock'' (Some (fd l1)),
         SysFlock (fd l1) {LOCK_EX, LOCK_NB}, SysCloseOnExec (fd l1)]"
    using C9_close_on_exec [where l = "New ''lock''" and os = unix_boot and ?l1.0 = l1 and ?os1.0 = os1]
      a u by (simp add: New_def cloexec_calls_def)
  moreover have "cloexec_calls (trace os2) = [] \<and>
      (\<forall>n. lookup_fd os2 n = lookup_fd unix_held n) \<and>
      trace os2 = [SysOpen ''lock'' (Some (fd l2)),
         SysFlock (fd l2) {LOCK_EX, LOCK_NB}, SysClose (fd l2)]"
    using C9_close_on_exec [where l = "New ''lock''" and os = unix_held and e = ErrLocked
        and ?l2.0 = l2 and ?os2.0 = os2]
      b u by (simp add: New_def cloexec_calls_def)
  ultimately show ?thesis
    using a b u by blast
qed


subsection \<open>C10: the millisecond count\<close>

text \<open>
  C10. On the asynchronous-event family a duration \<open>d \<ge> 0\<close> (nanoseconds, \<open>int64\<close>)
  becomes \<open>d / 1000000\<close> reduced modulo \<open>2 ^ 32\<close>. Below \<open>2 ^ 32\<close> ms (about 49.7
  days) that is the whole number of milliseconds; from \<open>2 ^ 32\<close> ms on the count is
  smaller than the duration, \<open>2 ^ 32\<close> ms itself becomes 0 and \<open>2 ^ 32 - 1\<close> ms becomes
  \<open>INFINITE\<close>. Every negative duration becomes \<open>INFINITE\<close>, under which the call never
  returns \<open>ErrTimeout\<close>; \<open>Lock\<close> is \<open>LockWithTimeout(-1)\<close>.
\<close>

theorem C10_milliseconds:
  "(0 \<le>s t \<longrightarrow> uint (millis_of t) = (sint t div 1000000) mod 2 ^ 32) \<and>
   (0 \<le>s t' \<and> sint t' < 4294967296000000 \<longrightarrow> uint (millis_of t') = sint t' div 1000000) \<and>
   (4294967296000000 \<le> sint t'' \<longrightarrow> uint (millis_of t'') < sint t'' div 1000000) \<and>
   millis_of 4294967296000000 = 0 \<and>
   millis_of 4294967295000000 = INFINITE \<and>
   (n <s 0 \<longrightarrow> millis_of n = INFINITE \<and>
      map_option fst (windows_LockWithTimeout n l os) \<noteq> Some (Some ErrTimeout)) \<and>
   windows_Lock l os = windows_LockWithTimeout (- 1) l os"
proof (intro conjI impI)
  show "uint (millis_of t) = (sint t div 1000000) mod 2 ^ 32" if "0 \<le>s t"
    using that by (rule uint_millis)
  show "uint (millis_of t') = sint t' div 1000000" if "0 \<le>s t' \<and> sint t' < 4294967296000000"
    using that by (simp add: millis_small)
  show "uint (millis_of t'') < sint t'' div 1000000" if "4294967296000000 \<le> sint t''"
    using that by (rule millis_wrap)
  show "millis_of 4294967296000000 = 0"
    by (simp add: millis_of_def int64_div_def word_sle_eq)
  show "millis_of 4294967295000000 = INFINITE"
    by (simp add: millis_of_def int64_div_def INFINITE_def word_sle_eq)
  show "millis_of n = INFINITE" if "n <s 0"
    using that by (rule millis_of_negative)
  show "map_option fst (windows_LockWithTimeout n l os) \<noteq> Some (Some ErrTimeout)" if "n <s 0"
    using that by (rule negative_never_times_out)
  show "windows_Lock l os = windows_LockWithTimeout (- 1) l os"
    by (simp add: windows_Lock_def)
qed

theorem C10_milliseconds_witness:
  "(0 \<le>s (1999999 :: Duration) \<and> sint (1999999 :: Duration) < 4294967296000000 \<and>
    uint (millis_of 1999999) = 1) \<and>
   (4294967296000000 \<le> sint (4294967297000000 :: Duration) \<and>
    uint (millis_of 4294967297000000) = 1 \<and>
    uint (millis_of 4294967297000000) < 4294967297) \<and>
   ((- 5 :: Duration) <s 0 \<and> millis_of (- 5) = INFINITE \<and>
    map_option fst (windows_LockWithTimeout (- 5) (windows_New ''lock'') win_released_late)
      = Some None) \<and>
   map_option fst (windows_LockWithTimeout 4294967296000000 (windows_New ''lock'') win_released_late)
     = Some (Some ErrTimeout)"
proof -
  have h: "0 \<le>s (1999999 :: Duration)" "sint (1999999 :: Duration) < 4294967296000000"
    "4294967296000000 \<le> sint (4294967297000000 :: Duration)" "(- 5 :: Duration) <s 0"
    "0 \<le>s (4294967297000000 :: Duration)"
    by (simp_all add: word_sle_eq word_sless_alt)
  have s: "sint (1999999 :: Duration) = 1999999" "sint (4294967297000000 :: Duration) = 4294967297000000"
    by simp_all
  have w: "map_option fst (windows_LockWithTimeout (- 5) (windows_New ''lock'') win_released_late)
      = Some None"
    "map_option fst (windows_LockWithTimeout 4294967296000000 (windows_New ''lock'') win_released_late)
     = Some (Some ErrTimeout)"
    by (simp_all add: win_eval win_released_late_def word_sle_eq)
  note i1 = C10_milliseconds [where t = 4294967297000000 and t' = 1999999 and t'' = 4294967297000000
      and n = "- 5" and l = "windows_New ''lock''" and os = win_released_late]
  show ?thesis
    using i1 h w by (simp add: s)
qed

end
